theory Spec2Isabelle
  imports Main "HOL-Library.Sublist" "HOL-Library.List_Lexorder" "HOL-Library.Char_ord"
    "HOL-Library.Multiset"
begin

section \<open>Data model\<close>

text \<open>
  The pipeline of \<^verbatim>\<open>main.mjs\<close> works on plain JavaScript objects, one per input row,
  whose properties are added and deleted by the stages. A property that is absent
  (\<^verbatim>\<open>undefined\<close>, \<^verbatim>\<open>null\<close> or deleted) is \<open>None\<close>. Strings are lists of
  code units; the operations used by the program (\<^verbatim>\<open>endsWith\<close>, \<^verbatim>\<open>indexOf\<close>,
  \<^verbatim>\<open>split\<close>, \<^verbatim>\<open>slice\<close>, regular expressions over ASCII literals) act on them
  unit by unit. A \<open>char\<close> is a code unit below 256, which covers every character that
  the literals of the program mention.
\<close>

text \<open>The error objects caught by \<^verbatim>\<open>catch (e)\<close>; every object is truthy.\<close>

datatype js_error = JsError string

text \<open>One entry of the array returned by \<^verbatim>\<open>dns.resolveAny\<close>: \<^verbatim>\<open>{type, value}\<close>.\<close>

record dns_record =
  dns_type :: string
  dns_value :: string

text \<open>
  The row object. The field \<^verbatim>\<open>Domain\<close> is written \<open>Domain'\<close> (the name
  \<open>Domain\<close> is the domain of a relation in HOL).
\<close>

record row =
  Domain' :: string
  Parent :: "string option"
  TLD :: "string option"
  Source :: "string option"
  Comment :: "string option"
  DNS :: "dns_record list option"
  DNSError :: "js_error option"
  HTTPStatus :: "int option"
  HTTPHeaders :: "(string \<rightharpoonup> string) option"
  HTTPBody :: "string option"
  HTTPError :: "js_error option"
  CDN :: "string option"

text \<open>The row read from an input table that has the single column \<^verbatim>\<open>Domain\<close>.\<close>

definition domain_row :: "string \<Rightarrow> row" where
  "domain_row d =
     \<lparr>Domain' = d, Parent = None, TLD = None, Source = None, Comment = None,
      DNS = None, DNSError = None, HTTPStatus = None, HTTPHeaders = None,
      HTTPBody = None, HTTPError = None, CDN = None\<rparr>"

subsection \<open>JavaScript strings and truthiness\<close>

text \<open>\<^verbatim>\<open>!x\<close> for a property holding a string: absent and the empty string are falsy.\<close>

fun truthy :: "string option \<Rightarrow> bool" where
  "truthy None = False"
| "truthy (Some s) = (s \<noteq> [])"

text \<open>\<^verbatim>\<open>s.endsWith(p)\<close>\<close>

definition endsWith :: "string \<Rightarrow> string \<Rightarrow> bool" where
  "endsWith s p = (length p \<le> length s \<and> drop (length s - length p) s = p)"

text \<open>\<^verbatim>\<open>s.startsWith(p)\<close>\<close>

definition startsWith :: "string \<Rightarrow> string \<Rightarrow> bool" where
  "startsWith s p = (take (length p) s = p)"

text \<open>\<^verbatim>\<open>s.indexOf(c)\<close> for a one-character search string: the first index, or -1.\<close>

fun indexOf :: "string \<Rightarrow> char \<Rightarrow> int" where
  "indexOf [] c = - 1"
| "indexOf (x # xs) c =
     (if x = c then 0 else (let i = indexOf xs c in if i = - 1 then - 1 else i + 1))"

text \<open>\<^verbatim>\<open>s.slice(0, -1)\<close>: all but the last code unit.\<close>

definition slice_0_neg1 :: "string \<Rightarrow> string" where
  "slice_0_neg1 s = take (length s - 1) s"

text \<open>\<^verbatim>\<open>s.split(c)[0]\<close>: the part before the first occurrence of the separator.\<close>

definition split_0 :: "string \<Rightarrow> char \<Rightarrow> string" where
  "split_0 s c = takeWhile (\<lambda>x. x \<noteq> c) s"

text \<open>\<^verbatim>\<open>list.includes(x)\<close> for a property that may be absent.\<close>

fun array_includes :: "string list \<Rightarrow> string option \<Rightarrow> bool" where
  "array_includes xs None = False"
| "array_includes xs (Some x) = (x \<in> set xs)"

section \<open>Synchronous stages\<close>

definition cleanupTrailingDot :: "row \<Rightarrow> row" where
  "cleanupTrailingDot row =
     (if endsWith (Domain' row) ''.''
      then row\<lparr>Domain' := slice_0_neg1 (Domain' row)\<rparr>
      else row)"

definition port_comment :: string where
  "port_comment = ''Cloudflare includes ports that are non-productive, we exclude these domains''"

definition flagPorts :: "row \<Rightarrow> row" where
  "flagPorts row =
     (let row1 = (if indexOf (Domain' row) CHR '':'' > - 1
                  then row\<lparr>Source := Some ''Excluded'', Comment := Some port_comment\<rparr>
                  else row)
      in if indexOf (Domain' row1) CHR ''/'' > - 1
         then row1\<lparr>Domain' := split_0 (Domain' row1) CHR ''/'',
                   Comment := Some ''Removed path from domain''\<rparr>
         else row1)"

text \<open>The normalizer: the first two stages of the chain, in the order of the source.\<close>

definition normalizer :: "row \<Rightarrow> row" where
  "normalizer row = flagPorts (cleanupTrailingDot row)"

text \<open>What the normalizer makes of a domain string.\<close>

definition normalize :: "string \<Rightarrow> string" where
  "normalize D = Domain' (normalizer (domain_row D))"

definition devParents :: "string list" where
  "devParents =
    [''workers.dev'', ''web.pfizer'', ''templates.pfizer'', ''oastify.com'',
     ''ngrok-free.app'', ''impactful-1.site'', ''impactful-2.site'', ''impactful-3.site'',
     ''impactful-4.site'', ''impactful-5.site'', ''hlx-1.page'', ''hlx-4.page'',
     ''helix3.dev'', ''helix3.page'', ''github.com'', ''github.dev'', ''franklin.pfizer'',
     ''fastlydemo.net'', ''fastly.net'', ''fastly-aem.page'', ''cloudfront.net'',
     ''bing.com'', ''aem.page'', ''aem.reviews'', ''aem.live'', ''adobeio-static.net'',
     ''adobeaemcloud.com'', ''adobe.pfizer'', ''adobe.net'', ''azurefd.net'',
     ''us-1.magentosite.cloud'', ''us-2.magentosite.cloud'', ''us-3.magentosite.cloud'',
     ''us-4.magentosite.cloud'']"

definition flagDev :: "row \<Rightarrow> row" where
  "flagDev row =
     (if array_includes devParents (Parent row) \<or> array_includes devParents (TLD row)
      then row\<lparr>Source := Some ''Excluded'', Comment := Some ''Development domain excluded''\<rparr>
      else row)"

text \<open>
  \<^verbatim>\<open>psl.parse\<close> belongs to the library \<^verbatim>\<open>psl\<close>; the stage takes it as a
  parameter giving the \<^verbatim>\<open>domain\<close> and \<^verbatim>\<open>tld\<close> properties of its result.
\<close>

record psl_result =
  psl_domain :: "string option"
  psl_tld :: "string option"

definition flagParent :: "(string \<Rightarrow> psl_result) \<Rightarrow> row \<Rightarrow> row" where
  "flagParent psl_parse row =
     (if Source row = Some ''Excluded'' then row
      else row\<lparr>Parent := psl_domain (psl_parse (Domain' row)),
               TLD := psl_tld (psl_parse (Domain' row))\<rparr>)"

subsection \<open>The IP check\<close>

text \<open>
  The two literals of \<^verbatim>\<open>flagIP\<close> are anchored regular expressions without
  back-references, so \<^verbatim>\<open>test\<close> decides membership in a regular language. They are
  written in a small regular-expression type and matched by derivatives. \<open>Rep n m r\<close>
  is the quantifier \<^verbatim>\<open>r{n,m}\<close> (\<open>None\<close> for an open upper bound).
\<close>

datatype regex =
    Zero
  | One
  | Cls "char list"
  | Seq regex regex
  | Alt regex regex
  | Rep nat "nat option" regex

primrec nullable :: "regex \<Rightarrow> bool" where
  "nullable Zero = False"
| "nullable One = True"
| "nullable (Cls cs) = False"
| "nullable (Seq r s) = (nullable r \<and> nullable s)"
| "nullable (Alt r s) = (nullable r \<or> nullable s)"
| "nullable (Rep n m r) = (n = 0 \<or> nullable r)"

primrec deriv :: "char \<Rightarrow> regex \<Rightarrow> regex" where
  "deriv c Zero = Zero"
| "deriv c One = Zero"
| "deriv c (Cls cs) = (if c \<in> set cs then One else Zero)"
| "deriv c (Seq r s) =
     (if nullable r then Alt (Seq (deriv c r) s) (deriv c s) else Seq (deriv c r) s)"
| "deriv c (Alt r s) = Alt (deriv c r) (deriv c s)"
| "deriv c (Rep n m r) =
     (if m = Some 0 then Zero
      else Seq (deriv c r) (Rep (n - 1) (map_option (\<lambda>k. k - 1) m) r))"

text \<open>\<^verbatim>\<open>/^r$/.test(s)\<close>\<close>

definition full_match :: "regex \<Rightarrow> string \<Rightarrow> bool" where
  "full_match r s = nullable (foldl (\<lambda>r c. deriv c r) r s)"

definition lit :: "string \<Rightarrow> regex" where
  "lit s = foldr (\<lambda>c r. Seq (Cls [c]) r) s One"

definition opt :: "regex \<Rightarrow> regex" where
  "opt r = Rep 0 (Some 1) r"

definition digit :: regex where
  "digit = Cls ''0123456789''"

text \<open>\<^verbatim>\<open>(?:25[0-5]|2[0-4][0-9]|[01]?[0-9][0-9]?)\<close>\<close>

definition octet :: regex where
  "octet = Alt (Seq (lit ''25'') (Cls ''012345''))
          (Alt (Seq (Cls ''2'') (Seq (Cls ''01234'') digit))
               (Seq (opt (Cls ''01'')) (Seq digit (opt digit))))"

definition ipv4Regex :: regex where
  "ipv4Regex = Seq (Rep 3 (Some 3) (Seq octet (Cls ''.''))) octet"

text \<open>\<^verbatim>\<open>[0-9a-fA-F]{1,4}\<close>, followed and preceded by a colon.\<close>

definition hex :: regex where
  "hex = Cls ''0123456789abcdefABCDEF''"

definition h4 :: regex where
  "h4 = Rep 1 (Some 4) hex"

definition h4_colon :: regex where
  "h4_colon = Seq h4 (Cls '':'')"

definition colon_h4 :: regex where
  "colon_h4 = Seq (Cls '':'') h4"

text \<open>\<^verbatim>\<open>(25[0-5]|(2[0-4]|1{0,1}[0-9]){0,1}[0-9])\<close> and the dotted quad made of it.\<close>

definition dec_octet :: regex where
  "dec_octet = Alt (Seq (lit ''25'') (Cls ''012345''))
                   (Seq (opt (Alt (Seq (Cls ''2'') (Cls ''01234''))
                                  (Seq (opt (Cls ''1'')) digit)))
                        digit)"

definition dotted_quad :: regex where
  "dotted_quad = Seq (Rep 3 (Some 3) (Seq dec_octet (Cls ''.''))) dec_octet"

text \<open>The twelve alternatives of \<^verbatim>\<open>ipv6Regex\<close>, in the order of the source.\<close>

definition ipv6Regex :: regex where
  "ipv6Regex =
     Alt (Seq (Rep 7 (Some 7) h4_colon) h4)
    (Alt (Seq (Rep 1 (Some 7) h4_colon) (Cls '':''))
    (Alt (Seq (Rep 1 (Some 6) h4_colon) colon_h4)
    (Alt (Seq (Rep 1 (Some 5) h4_colon) (Rep 1 (Some 2) colon_h4))
    (Alt (Seq (Rep 1 (Some 4) h4_colon) (Rep 1 (Some 3) colon_h4))
    (Alt (Seq (Rep 1 (Some 3) h4_colon) (Rep 1 (Some 4) colon_h4))
    (Alt (Seq (Rep 1 (Some 2) h4_colon) (Rep 1 (Some 5) colon_h4))
    (Alt (Seq h4_colon (Rep 1 (Some 6) colon_h4))
    (Alt (Seq (Cls '':'') (Alt (Rep 1 (Some 7) colon_h4) (Cls '':'')))
    (Alt (Seq (lit ''fe80:'')
           (Seq (Rep 0 (Some 4) (Seq (Cls '':'') (Rep 0 (Some 4) hex)))
           (Seq (Cls ''%'')
                (Rep 1 None
                   (Cls ''0123456789abcdefghijklmnopqrstuvwxyzABCDEFGHIJKLMNOPQRSTUVWXYZ'')))))
    (Alt (Seq (lit ''::'')
           (Seq (opt (Seq (lit ''ffff'')
                     (Seq (opt (Seq (Cls '':'') (Rep 1 (Some 4) (Cls ''0''))))
                          (Cls '':''))))
                dotted_quad))
         (Seq (Rep 1 (Some 4) h4_colon) (Seq (Cls '':'') dotted_quad))))))))))))"

definition flagIP :: "row \<Rightarrow> row" where
  "flagIP row =
     (if Source row = Some ''Excluded'' then row
      else if full_match ipv4Regex (Domain' row) \<or> full_match ipv6Regex (Domain' row)
           then row\<lparr>Source := Some ''Excluded'', Comment := Some ''IP address excluded''\<rparr>
           else row)"

subsection \<open>The sorter\<close>

text \<open>
  The comparison function passed to \<^verbatim>\<open>sort\<close>. \<^verbatim>\<open>localeCompare\<close> is the
  collation of the runtime and is a parameter.
\<close>

definition sort_comparator :: "(string \<Rightarrow> string \<Rightarrow> int) \<Rightarrow> row \<Rightarrow> row \<Rightarrow> int" where
  "sort_comparator localeCompare l r =
     (if \<not> truthy (Parent l) \<and> \<not> truthy (Parent r) then 0
      else if \<not> truthy (Parent l) then 1
      else if \<not> truthy (Parent r) then - 1
      else (case (Parent l, Parent r) of
              (Some a, Some b) \<Rightarrow> localeCompare a b
            | _ \<Rightarrow> 0))"

text \<open>
  \<^verbatim>\<open>Array.prototype.sort\<close> is a stable sort; with a consistent comparison function
  its result is the stable sorted arrangement of the array, which insertion from the
  right computes.
\<close>

fun insert_sorted :: "('a \<Rightarrow> 'a \<Rightarrow> int) \<Rightarrow> 'a \<Rightarrow> 'a list \<Rightarrow> 'a list" where
  "insert_sorted cmp x [] = [x]"
| "insert_sorted cmp x (y # ys) =
     (if cmp x y \<le> 0 then x # y # ys else y # insert_sorted cmp x ys)"

definition array_sort :: "('a \<Rightarrow> 'a \<Rightarrow> int) \<Rightarrow> 'a list \<Rightarrow> 'a list" where
  "array_sort cmp xs = foldr (insert_sorted cmp) xs []"

text \<open>The synchronous part of the chain, stage by stage over the whole array.\<close>

definition sync_stages ::
  "(string \<Rightarrow> psl_result) \<Rightarrow> (string \<Rightarrow> string \<Rightarrow> int) \<Rightarrow> row list \<Rightarrow> row list" where
  "sync_stages psl_parse localeCompare csvData =
     array_sort (sort_comparator localeCompare)
       (map flagDev
         (map (flagParent psl_parse)
           (map flagIP
             (map flagPorts
               (map cleanupTrailingDot csvData)))))"

section \<open>Asynchronous stages\<close>

text \<open>
  The network is a parameter of the stages that use it: \<^verbatim>\<open>dns.resolveAny\<close>,
  the \<^verbatim>\<open>URL\<close> constructor and \<^verbatim>\<open>fetch\<close> either return a value (\<open>Inr\<close>)
  or throw (\<open>Inl\<close>). A stage whose promise rejects returns \<open>Inl\<close>.
\<close>

definition enrichDNS :: "(string \<Rightarrow> js_error + dns_record list) \<Rightarrow> row \<Rightarrow> row" where
  "enrichDNS resolveAny row =
     (if Source row = Some ''Excluded'' then row
      else (case resolveAny (Domain' row) of
              Inr ds \<Rightarrow> row\<lparr>DNS := Some ds\<rparr>
            | Inl e \<Rightarrow> row\<lparr>DNSError := Some e\<rparr>))"

text \<open>
  The response of \<^verbatim>\<open>fetch\<close>: its status, the entries of its headers and what
  \<^verbatim>\<open>await res.text()\<close> gives, which may throw while the body is read.
\<close>

record response =
  res_status :: int
  res_headers :: "(string \<times> string) list"
  res_text :: "js_error + string"

text \<open>\<^verbatim>\<open>Object.fromEntries\<close>: a later entry overrides an earlier one with the same key.\<close>

definition fromEntries :: "(string \<times> string) list \<Rightarrow> (string \<rightharpoonup> string)" where
  "fromEntries es = map_of (rev es)"

text \<open>\<^verbatim>\<open>h['content-type']?.startsWith('text/html')\<close>\<close>

definition is_html :: "(string \<rightharpoonup> string) \<Rightarrow> bool" where
  "is_html h = (case h ''content-type'' of None \<Rightarrow> False | Some ct \<Rightarrow> startsWith ct ''text/html'')"

definition enrichHTTPS ::
  "(string \<Rightarrow> js_error + string) \<Rightarrow> (string \<Rightarrow> js_error + response) \<Rightarrow> row \<Rightarrow> js_error + row" where
  "enrichHTTPS newURL fetch row =
     (if Source row = Some ''Excluded'' then Inr row
      else (case newURL (''https://'' @ Domain' row) of
              Inl e \<Rightarrow> Inl e
            | Inr url \<Rightarrow>
               (case fetch url of
                  Inl e \<Rightarrow> Inr (row\<lparr>HTTPError := Some e\<rparr>)
                | Inr res \<Rightarrow>
                   (let row1 = row\<lparr>HTTPStatus := Some (res_status res),
                                   HTTPHeaders := Some (fromEntries (res_headers res))\<rparr>
                    in if res_status res = 200 \<and> is_html (fromEntries (res_headers res))
                       then (case res_text res of
                               Inl e \<Rightarrow> Inr (row1\<lparr>HTTPError := Some e\<rparr>)
                             | Inr body \<Rightarrow> Inr (row1\<lparr>HTTPBody := Some body\<rparr>))
                       else Inr row1))))"

subsection \<open>The CDN classifier\<close>

text \<open>The table \<^verbatim>\<open>cdns\<close>: pattern and provider, in the order of the source.\<close>

definition cdns :: "(string \<times> string) list" where
  "cdns =
    [(''.cdn.cloudflare.net'', ''Cloudflare''),
     (''.edgekey.net'', ''Akamai''),
     (''.edgesuite.net'', ''Akamai''),
     (''.magentocloud.map.fastly.net'', ''Adobe Commerce''),
     (''.fastly.net'', ''Fastly''),
     (''.adobeaemcloud.com'', ''AEM Cloud Service''),
     (''.cloudfront.net'', ''Cloudfront''),
     (''.azurefd.net'', ''Azure Front Door''),
     (''.azureedge.net'', ''Azure Front Door''),
     (''.gammacdn.net'', ''Edgio''),
     (''.abbottapps.net'', ''Abbott Apps''),
     (''.cdngslb.com'', ''Alibaba Cloud''),
     (''.induscdn.com'', ''Indus CDN''),
     (''.impervadns.net'', ''Imperva''),
     (''.rbzdns.com'', ''Rackspace''),
     (''.kxcdn.com'', ''KeyCDN''),
     (''.c10r.facebook.com'', ''Facebook''),
     (''.radwarecloud.net'', ''Radware Cloud''),
     (''.edgekey-staging.net'', ''Akamai''),
     (''.azurewebsites.net'', ''Azure Web Apps''),
     (''.x.incapdns.net'', ''Incapsula''),
     (''.onelink-translations.com'', ''OneLink''),
     (''.trafficmanager.net'', ''Azure''),
     (''.trafficdirector.pfizer.net'', ''Pfizer Traffic Director''),
     (''.wpengine.com'', ''WP Engine''),
     (''.omicroncdn.net'', ''Omicron CDN''),
     (''.vercel-dns.com'', ''Vercel''),
     (''.nucdn.net'', ''NuCDN''),
     (''.lighthouselabs.eu'', ''Lighthouse Labs''),
     (''.github.io'', ''GitHub Pages'')]"

text \<open>
  \<^verbatim>\<open>cdns.find(cdn => v.endsWith(cdn.pattern))\<close> followed by
  \<^verbatim>\<open>matchedCDN ? matchedCDN.cdn : null\<close>.
\<close>

definition matchedCDN :: "string \<Rightarrow> string option" where
  "matchedCDN v = map_option snd (List.find (\<lambda>cdn. endsWith v (fst cdn)) cdns)"

text \<open>The value ends with some pattern of the table.\<close>

definition matches_table :: "string \<Rightarrow> bool" where
  "matches_table v = list_ex (\<lambda>cdn. endsWith v (fst cdn)) cdns"

text \<open>The callback of \<^verbatim>\<open>reduce\<close>, whose initial value is \<^verbatim>\<open>undefined\<close>.\<close>

definition cdn_step :: "string option \<Rightarrow> dns_record \<Rightarrow> string option" where
  "cdn_step result dns = (if truthy result then result else matchedCDN (dns_value dns))"

definition is_CNAME :: "dns_record \<Rightarrow> bool" where
  "is_CNAME dns = (dns_type dns = ''CNAME'')"

definition server_is_cloudflare :: "(string \<rightharpoonup> string) option \<Rightarrow> bool" where
  "server_is_cloudflare hs =
     (case hs of None \<Rightarrow> False | Some h \<Rightarrow> h ''server'' = Some ''cloudflare'')"

definition flagCDN :: "row \<Rightarrow> row" where
  "flagCDN row =
     (if Source row = Some ''Excluded'' then row
      else (case DNS row of
              None \<Rightarrow> row
            | Some ds \<Rightarrow>
               (let row1 = row\<lparr>CDN := foldl cdn_step None (filter is_CNAME ds)\<rparr>;
                    row2 = (if \<not> truthy (CDN row1) \<and> server_is_cloudflare (HTTPHeaders row1)
                            then row1\<lparr>CDN := Some ''Cloudflare''\<rparr> else row1);
                    row3 = (if \<not> truthy (CDN row2) \<and> DNSError row2 \<noteq> None
                            then row2\<lparr>CDN := Some ''DNS Error''\<rparr>
                            else if \<not> truthy (CDN row2) \<and> List.find is_CNAME ds \<noteq> None
                            then row2\<lparr>CDN := Some (''Unknown CDN '' @
                                   (case List.find is_CNAME ds of
                                      Some d \<Rightarrow> dns_value d
                                    | None \<Rightarrow> ''undefined''))\<rparr>
                            else row2)
                in row3\<lparr>DNS := None\<rparr>)))"

subsection \<open>The content classifier\<close>

text \<open>
  The three fingerprints are unanchored patterns of fixed length: a sequence of
  character classes, each matching one code unit. \<open>Dot\<close> is the pattern character
  \<^verbatim>\<open>.\<close>, which matches every code unit but a line terminator; \<open>HexLower\<close> is the
  class \<^verbatim>\<open>[a-f0-9]\<close>.
\<close>

datatype atom = Lit char | Dot | HexLower

fun atom_match :: "atom \<Rightarrow> char \<Rightarrow> bool" where
  "atom_match (Lit a) c = (c = a)"
| "atom_match Dot c = (c \<noteq> CHR 0x0A \<and> c \<noteq> CHR 0x0D)"
| "atom_match HexLower c = (c \<in> set ''abcdef0123456789'')"

text \<open>The pattern matches at the start of the string.\<close>

fun match_here :: "atom list \<Rightarrow> string \<Rightarrow> bool" where
  "match_here [] s = True"
| "match_here (a # as) [] = False"
| "match_here (a # as) (c # cs) = (atom_match a c \<and> match_here as cs)"

text \<open>\<^verbatim>\<open>s.match(re)\<close> is not null: the pattern matches at some position.\<close>

fun regex_test :: "atom list \<Rightarrow> string \<Rightarrow> bool" where
  "regex_test pat [] = match_here pat []"
| "regex_test pat (c # cs) = (match_here pat (c # cs) \<or> regex_test pat cs)"

text \<open>\<^verbatim>\<open>/\/media_[a-f0-9]{40}/\<close>\<close>

definition helix_pattern :: "atom list" where
  "helix_pattern = map Lit ''/media_'' @ replicate 40 HexLower"

text \<open>\<^verbatim>\<open>/\/etc.clientlibs\//\<close>\<close>

definition aem_pattern :: "atom list" where
  "aem_pattern = map Lit ''/etc'' @ [Dot] @ map Lit ''clientlibs/''"

text \<open>\<^verbatim>\<open>/\/\.rum\/@adobe\/helix-rum-js/\<close>\<close>

definition rum_pattern :: "atom list" where
  "rum_pattern = map Lit ''/.rum/@adobe/helix-rum-js''"

text \<open>
  \<^verbatim>\<open>!row.HTTPBody\<close> holds when the body is absent and when it is the empty string.
\<close>

definition enrichHTML :: "row \<Rightarrow> row" where
  "enrichHTML row =
     (if Source row = Some ''Excluded'' then row
      else (case HTTPBody row of
              None \<Rightarrow> row\<lparr>Source := Some ''Unverified''\<rparr>
            | Some body \<Rightarrow>
               (if body = [] then row\<lparr>Source := Some ''Unverified''\<rparr>
                else if regex_test helix_pattern body
                     then row\<lparr>Source := Some ''Helix'', HTTPBody := None, HTTPHeaders := None\<rparr>
                else if regex_test aem_pattern body
                     then row\<lparr>Source := Some ''AEM'', HTTPBody := None, HTTPHeaders := None\<rparr>
                else if regex_test rum_pattern body
                     then row\<lparr>Source := Some ''RUM''\<rparr>
                else row\<lparr>Source := Some ''Other''\<rparr>)))"

subsection \<open>The whole chain\<close>

text \<open>The four asynchronous stages of one record; a rejection is passed on.\<close>

definition enrich_chain ::
  "(string \<Rightarrow> js_error + dns_record list) \<Rightarrow> (string \<Rightarrow> js_error + string)
   \<Rightarrow> (string \<Rightarrow> js_error + response) \<Rightarrow> row \<Rightarrow> js_error + row" where
  "enrich_chain resolveAny newURL fetch row =
     (case enrichHTTPS newURL fetch (enrichDNS resolveAny row) of
        Inl e \<Rightarrow> Inl e
      | Inr r \<Rightarrow> Inr (enrichHTML (flagCDN r)))"

text \<open>\<^verbatim>\<open>Promise.all\<close>: all the values, or a rejection if one of the promises rejects.\<close>

fun promise_all :: "(js_error + 'a) list \<Rightarrow> js_error + 'a list" where
  "promise_all [] = Inr []"
| "promise_all (Inl e # ps) = Inl e"
| "promise_all (Inr x # ps) = (case promise_all ps of Inl e \<Rightarrow> Inl e | Inr xs \<Rightarrow> Inr (x # xs))"

text \<open>
  The array \<^verbatim>\<open>cleaned\<close>, which is what the program prints and writes: the final
  output, from the rows \<^verbatim>\<open>csvData\<close> as they are after \<^verbatim>\<open>csvData.shift()\<close>.
\<close>

definition cleaned ::
  "(string \<Rightarrow> psl_result) \<Rightarrow> (string \<Rightarrow> string \<Rightarrow> int)
   \<Rightarrow> (string \<Rightarrow> js_error + dns_record list) \<Rightarrow> (string \<Rightarrow> js_error + string)
   \<Rightarrow> (string \<Rightarrow> js_error + response) \<Rightarrow> row list \<Rightarrow> js_error + row list" where
  "cleaned psl_parse localeCompare resolveAny newURL fetch csvData =
     promise_all (map (enrich_chain resolveAny newURL fetch)
                      (sync_stages psl_parse localeCompare csvData))"

section \<open>Environments for the examples\<close>

text \<open>
  Concrete instances of the parameters, used where a statement is evaluated on an
  input: a URL constructor that accepts its argument, a collation that compares code
  units, a suffix parser for names under "example.com", three resolvers and four servers.
\<close>

definition newURL_ok :: "string \<Rightarrow> js_error + string" where
  "newURL_ok u = Inr u"

definition codeunit_compare :: "string \<Rightarrow> string \<Rightarrow> int" where
  "codeunit_compare a b = (if a < b then - 1 else if a = b then 0 else 1)"

definition psl_example :: "string \<Rightarrow> psl_result" where
  "psl_example d = \<lparr>psl_domain = Some ''example.com'', psl_tld = Some ''com''\<rparr>"

definition resolveAny_address :: "string \<Rightarrow> js_error + dns_record list" where
  "resolveAny_address d = Inr [\<lparr>dns_type = ''A'', dns_value = ''''\<rparr>]"

text \<open>The name does not resolve.\<close>

definition resolveAny_fails :: "string \<Rightarrow> js_error + dns_record list" where
  "resolveAny_fails d = Inl (JsError ''ENOTFOUND'')"

text \<open>A chain of aliases: the first CNAME matches no pattern, the second and third do.\<close>

definition resolveAny_aliases :: "string \<Rightarrow> js_error + dns_record list" where
  "resolveAny_aliases d =
     Inr [\<lparr>dns_type = ''A'', dns_value = ''''\<rparr>,
          \<lparr>dns_type = ''CNAME'', dns_value = ''shop.example.net''\<rparr>,
          \<lparr>dns_type = ''CNAME'', dns_value = ''prod.magentocloud.map.fastly.net''\<rparr>,
          \<lparr>dns_type = ''CNAME'', dns_value = ''d111.cloudfront.net''\<rparr>]"

text \<open>The connection is refused.\<close>

definition fetch_refused :: "string \<Rightarrow> js_error + response" where
  "fetch_refused u = Inl (JsError ''ECONNREFUSED'')"

text \<open>The response arrives with status 200 and then the connection breaks.\<close>

definition fetch_body_fails :: "string \<Rightarrow> js_error + response" where
  "fetch_body_fails u =
     Inr \<lparr>res_status = 200, res_headers = [(''content-type'', ''text/html'')],
          res_text = Inl (JsError ''terminated'')\<rparr>"

text \<open>A response with status 200 and content type text/html whose body is empty.\<close>

definition fetch_empty_page :: "string \<Rightarrow> js_error + response" where
  "fetch_empty_page u =
     Inr \<lparr>res_status = 200, res_headers = [(''content-type'', ''text/html'')],
          res_text = Inr ''''\<rparr>"

text \<open>A page without any fingerprint.\<close>

definition fetch_plain_page :: "string \<Rightarrow> js_error + response" where
  "fetch_plain_page u =
     Inr \<lparr>res_status = 200, res_headers = [(''content-type'', ''text/html'')],
          res_text = Inr ''<html><body>Hello</body></html>''\<rparr>"

section \<open>Helper lemmas on strings\<close>

lemma indexOf_ge: "- 1 \<le> indexOf s c"
  by (induction s) (auto simp: Let_def)

lemma indexOf_found: "(indexOf s c > - 1) = (c \<in> set s)"
proof (induction s)
  case Nil
  show ?case by simp
next
  case (Cons x xs)
  have "- 1 \<le> indexOf xs c" by (rule indexOf_ge)
  with Cons show ?case by (auto simp: Let_def)
qed

lemma endsWith_suffix: "endsWith s p = suffix p s"
proof
  assume "endsWith s p"
  then have "s = take (length s - length p) s @ p"
    by (metis append_take_drop_id endsWith_def)
  then show "suffix p s" by (metis suffixI)
next
  assume "suffix p s"
  then obtain q where "s = q @ p" by (auto simp: suffix_def)
  then show "endsWith s p" by (simp add: endsWith_def)
qed

lemma endsWith_dot: "endsWith s ''.'' = (s \<noteq> [] \<and> last s = CHR ''.'')"
proof (cases s rule: rev_cases)
  case Nil
  then show ?thesis by (simp add: endsWith_def)
next
  case (snoc ys y)
  then show ?thesis by (auto simp: endsWith_def)
qed

lemma slice_0_neg1_butlast: "slice_0_neg1 s = butlast s"
  by (simp add: slice_0_neg1_def butlast_conv_take)

lemma split_0_no_sep: "c \<notin> set (split_0 s c)"
  by (auto simp: split_0_def dest: set_takeWhileD)

lemma split_0_id: "c \<notin> set s \<Longrightarrow> split_0 s c = s"
  by (auto simp: split_0_def takeWhile_eq_all_conv)

section \<open>The normalizer\<close>

lemma Domain_flagPorts:
  "Domain' (flagPorts r) = split_0 (Domain' r) CHR ''/''"
  by (simp add: flagPorts_def Let_def indexOf_found split_0_id)

lemma Domain_normalizer:
  "Domain' (normalizer r) = normalize (Domain' r)"
  by (simp add: normalizer_def normalize_def Domain_flagPorts cleanupTrailingDot_def domain_row_def)

lemma normalize_eq:
  "normalize D = split_0 (if endsWith D ''.'' then slice_0_neg1 D else D) CHR ''/''"
  by (simp add: normalize_def normalizer_def Domain_flagPorts cleanupTrailingDot_def domain_row_def)

lemma normalize_no_slash: "CHR ''/'' \<notin> set (normalize D)"
  by (simp add: normalize_eq split_0_no_sep)

lemma set_cleanupTrailingDot:
  assumes "c \<noteq> CHR ''.''"
  shows "(c \<in> set (Domain' (cleanupTrailingDot r))) = (c \<in> set (Domain' r))"
proof (cases "endsWith (Domain' r) ''.''")
  case False
  then show ?thesis by (simp add: cleanupTrailingDot_def)
next
  case True
  then have ne: "Domain' r \<noteq> []" and l: "last (Domain' r) = CHR ''.''"
    by (simp_all add: endsWith_dot)
  from ne have "Domain' r = butlast (Domain' r) @ [last (Domain' r)]" by simp
  then have "set (Domain' r) = set (butlast (Domain' r)) \<union> {CHR ''.''}"
    using l by (metis list.simps(15) set_append empty_set)
  with assms True show ?thesis
    by (auto simp: cleanupTrailingDot_def slice_0_neg1_butlast)
qed

text \<open>
  C3 (as amended). A record whose Domain contains both a colon and a slash leaves the
  normalizer with Source = "Excluded" from the port check, which runs first, but with
  the comment of the path check, which runs second and overwrites the port comment;
  its Domain is cut before the first slash.
\<close>

theorem normalizer_port_and_path:
  assumes "CHR '':'' \<in> set (Domain' r)" and "CHR ''/'' \<in> set (Domain' r)"
  shows "Source (normalizer r) = Some ''Excluded''
       \<and> Comment (normalizer r) = Some ''Removed path from domain''
       \<and> Domain' (normalizer r) = split_0 (Domain' (cleanupTrailingDot r)) CHR ''/''"
proof -
  let ?r1 = "cleanupTrailingDot r"
  have c: "CHR '':'' \<in> set (Domain' ?r1)"
    using assms(1) by (simp add: set_cleanupTrailingDot)
  have s: "CHR ''/'' \<in> set (Domain' ?r1)"
    using assms(2) by (simp add: set_cleanupTrailingDot)
  from c s show ?thesis
    by (simp add: normalizer_def flagPorts_def Let_def indexOf_found)
qed

theorem normalizer_port_and_path_witness:
  "Source (normalizer (domain_row ''cdn.example.com:443/index.html'')) = Some ''Excluded''
 \<and> Comment (normalizer (domain_row ''cdn.example.com:443/index.html''))
     = Some ''Removed path from domain''
 \<and> Domain' (normalizer (domain_row ''cdn.example.com:443/index.html''))
     = ''cdn.example.com:443''"
  using normalizer_port_and_path [of "domain_row ''cdn.example.com:443/index.html''"]
  by (simp add: domain_row_def cleanupTrailingDot_def endsWith_def split_0_def)

text \<open>
  C3 as stated fails: for the Domain "cdn.example.com:443/index.html", which contains
  a colon and a slash, the comment after the normalizer is not the port comment.
\<close>

theorem normalizer_port_comment_counterexample:
  "CHR '':'' \<in> set (Domain' (domain_row ''cdn.example.com:443/index.html''))
 \<and> CHR ''/'' \<in> set (Domain' (domain_row ''cdn.example.com:443/index.html''))
 \<and> \<not> (Source (normalizer (domain_row ''cdn.example.com:443/index.html'')) = Some ''Excluded''
      \<and> Comment (normalizer (domain_row ''cdn.example.com:443/index.html''))
          = Some port_comment)"
  by (simp add: domain_row_def normalizer_def flagPorts_def cleanupTrailingDot_def
      endsWith_def split_0_def port_comment_def)

text \<open>
  C5 (as amended). One pass leaves no slash in the Domain, so a second pass removes no
  path; and the second pass changes the Domain exactly when the Domain still ends with
  a dot after the first pass, because each pass removes one trailing dot only.
\<close>

theorem normalize_twice:
  "CHR ''/'' \<notin> set (normalize D)
 \<and> (normalize (normalize D) = normalize D) = (\<not> endsWith (normalize D) ''.'')"
proof -
  let ?N = "normalize D"
  have ns: "CHR ''/'' \<notin> set ?N" by (rule normalize_no_slash)
  have nb: "CHR ''/'' \<notin> set (butlast ?N)"
    using ns by (auto dest: in_set_butlastD)
  have eq: "normalize ?N = (if endsWith ?N ''.'' then butlast ?N else ?N)"
    using ns nb by (simp add: normalize_eq [of ?N] slice_0_neg1_butlast split_0_id)
  have "butlast ?N \<noteq> ?N" if "endsWith ?N ''.''"
  proof -
    from that have "?N \<noteq> []" by (simp add: endsWith_dot)
    then have "length (butlast ?N) < length ?N" by simp
    then show ?thesis by (metis less_irrefl)
  qed
  with eq ns show ?thesis by auto
qed

theorem normalize_twice_witness:
  "normalize (normalize ''www.example.com./a/b'') \<noteq> normalize ''www.example.com./a/b''
 \<and> normalize (normalize ''www.example.com.'') = normalize ''www.example.com.''"
  using normalize_twice [of "''www.example.com./a/b''"] normalize_twice [of "''www.example.com.''"]
  by (simp add: normalize_eq endsWith_def slice_0_neg1_def split_0_def)

text \<open>
  C5 as stated fails: "example.com.." becomes "example.com." after one pass and
  "example.com" after two.
\<close>

theorem normalize_idempotent_counterexample:
  "normalize (normalize ''example.com..'') \<noteq> normalize ''example.com..''"
  by (simp add: normalize_eq endsWith_def slice_0_neg1_def split_0_def)

section \<open>The CDN classifier\<close>

lemma matchedCDN_nonempty: "matchedCDN v = Some c \<Longrightarrow> c \<noteq> []"
proof -
  assume a: "matchedCDN v = Some c"
  then obtain e where f: "List.find (\<lambda>cdn. endsWith v (fst cdn)) cdns = Some e" and c: "c = snd e"
    by (auto simp: matchedCDN_def)
  from f have "e \<in> set cdns" by (auto simp: find_Some_iff)
  moreover have "list_all (\<lambda>cdn. snd cdn \<noteq> []) cdns" by (simp add: cdns_def)
  ultimately show ?thesis using c by (auto simp: list_all_iff)
qed

lemma matchedCDN_None: "(matchedCDN v = None) = (\<not> matches_table v)"
  by (simp add: matchedCDN_def matches_table_def find_None_iff list_ex_iff) force

lemma matchedCDN_truthy: "truthy (matchedCDN v) = matches_table v"
  using matchedCDN_None [of v] by (cases "matchedCDN v") (auto dest: matchedCDN_nonempty)

lemma matchedCDN_in_table:
  assumes "matchedCDN v = Some c"
  shows "\<exists>p. (p, c) \<in> set cdns \<and> endsWith v p"
proof -
  from assms obtain e where f: "List.find (\<lambda>cdn. endsWith v (fst cdn)) cdns = Some e"
    and c: "c = snd e"
    by (auto simp: matchedCDN_def)
  from f have "e \<in> set cdns" and "endsWith v (fst e)" by (auto simp: find_Some_iff)
  with c have "(fst e, c) \<in> set cdns \<and> endsWith v (fst e)" by simp
  then show ?thesis by blast
qed

lemma foldl_cdn_step_truthy: "truthy acc \<Longrightarrow> foldl cdn_step acc xs = acc"
  by (induction xs) (auto simp: cdn_step_def)

lemma foldl_cdn_step_find:
  "foldl cdn_step None xs =
     (case List.find (\<lambda>x. matches_table (dns_value x)) xs of
        None \<Rightarrow> None | Some d \<Rightarrow> matchedCDN (dns_value d))"
proof (induction xs)
  case Nil
  show ?case by simp
next
  case (Cons x xs)
  show ?case
  proof (cases "matches_table (dns_value x)")
    case True
    then have t: "truthy (matchedCDN (dns_value x))"
      by (simp add: matchedCDN_truthy)
    have "foldl cdn_step None (x # xs) = foldl cdn_step (matchedCDN (dns_value x)) xs"
      by (simp add: cdn_step_def)
    with t True show ?thesis by (simp add: foldl_cdn_step_truthy)
  next
    case False
    then have "matchedCDN (dns_value x) = None"
      by (simp add: matchedCDN_None)
    with False Cons show ?thesis by (simp add: cdn_step_def)
  qed
qed

lemma find_filter: "List.find P (filter Q xs) = List.find (\<lambda>x. Q x \<and> P x) xs"
  by (induction xs) auto

lemma flagCDN_CDN_first_match:
  assumes "Source row \<noteq> Some ''Excluded''" and "DNS row = Some ds"
    and "List.find (\<lambda>x. is_CNAME x \<and> matches_table (dns_value x)) ds = Some d"
  shows "CDN (flagCDN row) = matchedCDN (dns_value d)"
proof -
  have m: "matches_table (dns_value d)" using assms(3) by (auto simp: find_Some_iff)
  have f: "foldl cdn_step None (filter is_CNAME ds) = matchedCDN (dns_value d)"
    using assms(3) by (simp add: foldl_cdn_step_find find_filter)
  have t: "truthy (matchedCDN (dns_value d))"
    using m by (simp add: matchedCDN_truthy)
  show ?thesis using assms(1,2) f t by (simp add: flagCDN_def Let_def)
qed

lemma endsWith_both:
  assumes "endsWith v p" and "endsWith v q" and "length q \<le> length p"
  shows "endsWith p q"
proof -
  from assms(1,2) have "suffix p v" "suffix q v" by (simp_all add: endsWith_suffix)
  then have "suffix p q \<or> suffix q p" by (rule suffix_same_cases [THEN disjE]) auto
  with assms(3) have "suffix q p" by (auto dest: suffix_length_le suffix_order.antisym simp: suffix_def)
  then show ?thesis by (simp add: endsWith_suffix)
qed

lemma matchedCDN_magento:
  assumes "endsWith v ''.magentocloud.map.fastly.net''"
  shows "matchedCDN v = Some ''Adobe Commerce''"
proof -
  have 1: "\<not> endsWith v ''.cdn.cloudflare.net''"
    using endsWith_both [OF assms, of "''.cdn.cloudflare.net''"] by (auto simp: endsWith_def)
  have 2: "\<not> endsWith v ''.edgekey.net''"
    using endsWith_both [OF assms, of "''.edgekey.net''"] by (auto simp: endsWith_def)
  have 3: "\<not> endsWith v ''.edgesuite.net''"
    using endsWith_both [OF assms, of "''.edgesuite.net''"] by (auto simp: endsWith_def)
  show ?thesis using 1 2 3 assms by (simp add: matchedCDN_def cdns_def)
qed

lemma matchedCDN_fastly:
  assumes "endsWith v ''.fastly.net''" and "\<not> endsWith v ''.magentocloud.map.fastly.net''"
  shows "matchedCDN v = Some ''Fastly''"
proof -
  have 1: "\<not> endsWith v ''.cdn.cloudflare.net''"
    using endsWith_both [OF _ assms(1), of "''.cdn.cloudflare.net''"] by (auto simp: endsWith_def)
  have 2: "\<not> endsWith v ''.edgekey.net''"
    using endsWith_both [OF _ assms(1), of "''.edgekey.net''"] by (auto simp: endsWith_def)
  have 3: "\<not> endsWith v ''.edgesuite.net''"
    using endsWith_both [OF _ assms(1), of "''.edgesuite.net''"] by (auto simp: endsWith_def)
  show ?thesis using 1 2 3 assms by (simp add: matchedCDN_def cdns_def)
qed

lemma enrichDNS_Source: "Source (enrichDNS resolveAny r) = Source r"
  by (simp add: enrichDNS_def split: sum.splits)

lemma enrichDNS_excluded:
  "Source r = Some ''Excluded'' \<Longrightarrow> enrichDNS resolveAny r = r"
  by (simp add: enrichDNS_def)

lemma enrichHTTPS_excluded:
  "Source r = Some ''Excluded'' \<Longrightarrow> enrichHTTPS newURL fetch r = Inr r"
  by (simp add: enrichHTTPS_def)

lemma enrichHTTPS_keeps:
  assumes "enrichHTTPS newURL fetch r = Inr r'"
  shows "Source r' = Source r" and "DNS r' = DNS r" and "DNSError r' = DNSError r"
    and "Domain' r' = Domain' r" and "Comment r' = Comment r" and "CDN r' = CDN r"
    and "Parent r' = Parent r" and "TLD r' = TLD r"
  using assms
  by (auto simp: enrichHTTPS_def Let_def split: if_splits sum.splits)

lemma flagCDN_DNS_absent: "DNS r = None \<Longrightarrow> flagCDN r = r"
  by (simp add: flagCDN_def)

text \<open>
  A record that reaches the CDN classifier with a DNS field was not excluded: the DNS
  enricher is the only stage that sets the field, and it skips excluded records.
\<close>

lemma populated_DNS_not_excluded:
  assumes "DNS r0 = None"
    and "enrichHTTPS newURL fetch (enrichDNS resolveAny r0) = Inr row"
    and "DNS row = Some ds"
  shows "Source row \<noteq> Some ''Excluded''"
proof
  assume e: "Source row = Some ''Excluded''"
  have "Source row = Source r0"
    using enrichHTTPS_keeps(1) [OF assms(2)] by (simp add: enrichDNS_Source)
  with e have "enrichDNS resolveAny r0 = r0" by (simp add: enrichDNS_excluded)
  with assms(2) have "DNS row = DNS r0" using enrichHTTPS_keeps(2) by metis
  with assms(1,3) show False by simp
qed

text \<open>
  C6. For a record whose DNS field was populated by the DNS enricher, the CDN classifier
  takes the first record of the DNS array, in its order, that is a CNAME and whose
  value ends with some pattern of the table, and assigns the provider that the table
  gives for that value: later CNAME records are not looked at. A value ending with
  ".magentocloud.map.fastly.net" gives "Adobe Commerce"; a value ending with
  ".fastly.net" but not with the longer pattern gives "Fastly".
\<close>

theorem flagCDN_first_matching_CNAME:
  assumes "DNS r0 = None"
    and "enrichHTTPS newURL fetch (enrichDNS resolveAny r0) = Inr row"
    and "DNS row = Some ds"
    and "List.find (\<lambda>x. is_CNAME x \<and> matches_table (dns_value x)) ds = Some d"
  shows "CDN (flagCDN row) = matchedCDN (dns_value d)
       \<and> (\<exists>p c. (p, c) \<in> set cdns \<and> endsWith (dns_value d) p \<and> CDN (flagCDN row) = Some c)
       \<and> (endsWith (dns_value d) ''.magentocloud.map.fastly.net''
            \<longrightarrow> CDN (flagCDN row) = Some ''Adobe Commerce'')
       \<and> (endsWith (dns_value d) ''.fastly.net''
            \<and> \<not> endsWith (dns_value d) ''.magentocloud.map.fastly.net''
            \<longrightarrow> CDN (flagCDN row) = Some ''Fastly'')"
proof -
  have ne: "Source row \<noteq> Some ''Excluded''"
    using assms(1,2,3) by (rule populated_DNS_not_excluded)
  have eq: "CDN (flagCDN row) = matchedCDN (dns_value d)"
    using ne assms(3,4) by (rule flagCDN_CDN_first_match)
  have "matches_table (dns_value d)" using assms(4) by (auto simp: find_Some_iff)
  then obtain c where c: "matchedCDN (dns_value d) = Some c"
    using matchedCDN_None [of "dns_value d"] by auto
  from matchedCDN_in_table [OF c] obtain p where "(p, c) \<in> set cdns" "endsWith (dns_value d) p"
    by blast
  with eq c have ex: "\<exists>p c. (p, c) \<in> set cdns \<and> endsWith (dns_value d) p \<and> CDN (flagCDN row) = Some c"
    by auto
  from eq ex show ?thesis by (simp add: matchedCDN_magento matchedCDN_fastly)
qed

theorem flagCDN_first_matching_CNAME_witness:
  "enrichHTTPS newURL_ok fetch_refused (enrichDNS resolveAny_aliases (domain_row ''shop.example.com''))
     = Inr ((domain_row ''shop.example.com'')
             \<lparr>DNS := Some [\<lparr>dns_type = ''A'', dns_value = ''''\<rparr>,
                     \<lparr>dns_type = ''CNAME'', dns_value = ''shop.example.net''\<rparr>,
                     \<lparr>dns_type = ''CNAME'', dns_value = ''prod.magentocloud.map.fastly.net''\<rparr>,
                     \<lparr>dns_type = ''CNAME'', dns_value = ''d111.cloudfront.net''\<rparr>],
              HTTPError := Some (JsError ''ECONNREFUSED'')\<rparr>)
 \<and> CDN (flagCDN ((domain_row ''shop.example.com'')
             \<lparr>DNS := Some [\<lparr>dns_type = ''A'', dns_value = ''''\<rparr>,
                     \<lparr>dns_type = ''CNAME'', dns_value = ''shop.example.net''\<rparr>,
                     \<lparr>dns_type = ''CNAME'', dns_value = ''prod.magentocloud.map.fastly.net''\<rparr>,
                     \<lparr>dns_type = ''CNAME'', dns_value = ''d111.cloudfront.net''\<rparr>],
              HTTPError := Some (JsError ''ECONNREFUSED'')\<rparr>))
     = Some ''Adobe Commerce''"
proof -
  let ?ds = "[\<lparr>dns_type = ''A'', dns_value = ''''\<rparr>,
              \<lparr>dns_type = ''CNAME'', dns_value = ''shop.example.net''\<rparr>,
              \<lparr>dns_type = ''CNAME'', dns_value = ''prod.magentocloud.map.fastly.net''\<rparr>,
              \<lparr>dns_type = ''CNAME'', dns_value = ''d111.cloudfront.net''\<rparr>]"
  let ?row = "(domain_row ''shop.example.com'')
                \<lparr>DNS := Some ?ds, HTTPError := Some (JsError ''ECONNREFUSED'')\<rparr>"
  have 1: "DNS (domain_row ''shop.example.com'') = None"
    by (simp add: domain_row_def)
  have 2: "enrichHTTPS newURL_ok fetch_refused
             (enrichDNS resolveAny_aliases (domain_row ''shop.example.com'')) = Inr ?row"
    by (simp add: domain_row_def enrichDNS_def enrichHTTPS_def resolveAny_aliases_def
        newURL_ok_def fetch_refused_def)
  have 3: "DNS ?row = Some ?ds" by simp
  have 4: "List.find (\<lambda>x. is_CNAME x \<and> matches_table (dns_value x)) ?ds
             = Some \<lparr>dns_type = ''CNAME'', dns_value = ''prod.magentocloud.map.fastly.net''\<rparr>"
    by (simp add: is_CNAME_def matches_table_def cdns_def endsWith_def)
  have 5: "endsWith (dns_value \<lparr>dns_type = ''CNAME'',
                                 dns_value = ''prod.magentocloud.map.fastly.net''\<rparr>)
             ''.magentocloud.map.fastly.net''"
    by (simp add: endsWith_def)
  from flagCDN_first_matching_CNAME [OF 1 2 3 4] 5
  have "CDN (flagCDN ?row) = Some ''Adobe Commerce''"
    by blast
  with 2 show ?thesis by simp
qed

text \<open>
  C1. The DNS enricher records a failed resolution as DNSError and leaves DNS absent;
  on such a record the CDN classifier returns at its test of DNS, before the branch
  that assigns "DNS Error", and CDN stays unset.
\<close>

theorem flagCDN_failed_resolution:
  "enrichDNS resolveAny_fails (domain_row ''nonexistent.example'')
     = (domain_row ''nonexistent.example'')\<lparr>DNSError := Some (JsError ''ENOTFOUND'')\<rparr>
 \<and> DNS ((domain_row ''nonexistent.example'')\<lparr>DNSError := Some (JsError ''ENOTFOUND'')\<rparr>)
     = None
 \<and> flagCDN ((domain_row ''nonexistent.example'')\<lparr>DNSError := Some (JsError ''ENOTFOUND'')\<rparr>)
     = (domain_row ''nonexistent.example'')\<lparr>DNSError := Some (JsError ''ENOTFOUND'')\<rparr>
 \<and> CDN (flagCDN ((domain_row ''nonexistent.example'')
                    \<lparr>DNSError := Some (JsError ''ENOTFOUND'')\<rparr>)) = None"
  by (simp add: enrichDNS_def resolveAny_fails_def domain_row_def flagCDN_def)

section \<open>The content classifier\<close>

lemma match_here_iff:
  "match_here pat s = (\<exists>w post. s = w @ post \<and> list_all2 atom_match pat w)"
proof (induction pat s rule: match_here.induct)
  case (1 s)
  show ?case by simp
next
  case (2 a as)
  show ?case by (simp add: list_all2_Cons1)
next
  case (3 a as c cs)
  show ?case
  proof
    assume "match_here (a # as) (c # cs)"
    with 3 obtain w post where "cs = w @ post" "list_all2 atom_match as w" "atom_match a c"
      by auto
    then have "c # cs = (c # w) @ post \<and> list_all2 atom_match (a # as) (c # w)" by simp
    then show "\<exists>w post. c # cs = w @ post \<and> list_all2 atom_match (a # as) w" by blast
  next
    assume "\<exists>w post. c # cs = w @ post \<and> list_all2 atom_match (a # as) w"
    then obtain w post where w: "c # cs = w @ post" "list_all2 atom_match (a # as) w" by blast
    from w(2) obtain x xs where x: "w = x # xs" "atom_match a x" "list_all2 atom_match as xs"
      by (auto simp: list_all2_Cons1)
    with w(1) have "x = c" "cs = xs @ post" by auto
    with x 3 show "match_here (a # as) (c # cs)" by auto
  qed
qed

lemma regex_test_iff:
  "regex_test pat s = (\<exists>pre w post. s = pre @ w @ post \<and> list_all2 atom_match pat w)"
proof (induction s)
  case Nil
  show ?case by (auto simp: match_here_iff)
next
  case (Cons c cs)
  show ?case
  proof
    assume "regex_test pat (c # cs)"
    then consider "match_here pat (c # cs)" | "regex_test pat cs" by auto
    then show "\<exists>pre w post. c # cs = pre @ w @ post \<and> list_all2 atom_match pat w"
    proof cases
      case 1
      then obtain w post where "c # cs = [] @ w @ post \<and> list_all2 atom_match pat w"
        by (auto simp: match_here_iff)
      then show ?thesis by blast
    next
      case 2
      with Cons obtain pre w post where "cs = pre @ w @ post" "list_all2 atom_match pat w"
        by auto
      then have "c # cs = (c # pre) @ w @ post \<and> list_all2 atom_match pat w" by simp
      then show ?thesis by blast
    qed
  next
    assume "\<exists>pre w post. c # cs = pre @ w @ post \<and> list_all2 atom_match pat w"
    then obtain pre w post where p: "c # cs = pre @ w @ post" "list_all2 atom_match pat w"
      by blast
    show "regex_test pat (c # cs)"
    proof (cases pre)
      case Nil
      with p have "match_here pat (c # cs)" by (auto simp: match_here_iff)
      then show ?thesis by simp
    next
      case (Cons x xs)
      with p have "cs = xs @ w @ post" by simp
      with p(2) Cons.IH have "regex_test pat cs" by blast
      then show ?thesis by simp
    qed
  qed
qed

lemma list_all2_Lit: "list_all2 atom_match (map Lit w) v = (v = w)"
proof (induction w arbitrary: v)
  case Nil
  show ?case by simp
next
  case (Cons a w)
  show ?case by (cases v) (auto simp: Cons)
qed

lemma list_all2_replicate:
  "list_all2 atom_match (replicate n a) v = (length v = n \<and> (\<forall>c\<in>set v. atom_match a c))"
proof (induction n arbitrary: v)
  case 0
  show ?case by auto
next
  case (Suc n)
  show ?case by (cases v) (auto simp: Suc)
qed

lemma regex_test_literal: "regex_test (map Lit w) s = sublist w s"
  by (simp add: regex_test_iff list_all2_Lit sublist_def)

lemma list_all2_Lit_append:
  "list_all2 atom_match (map Lit u @ pat) w = (\<exists>v. w = u @ v \<and> list_all2 atom_match pat v)"
  by (auto simp: list_all2_append1 list_all2_Lit list_all2_lengthD)

lemma regex_test_Lit_append:
  "regex_test (map Lit u @ pat) s =
     (\<exists>v. list_all2 atom_match pat v \<and> sublist (u @ v) s)"
  unfolding regex_test_iff list_all2_Lit_append sublist_def by blast

lemma regex_test_helix:
  "regex_test helix_pattern s =
     (\<exists>h. length h = 40 \<and> set h \<subseteq> set ''abcdef0123456789'' \<and> sublist (''/media_'' @ h) s)"
proof -
  have hex: "(\<forall>c\<in>set h. atom_match HexLower c) = (set h \<subseteq> set ''abcdef0123456789'')" for h
    by (simp only: atom_match.simps subset_eq)
  have "regex_test helix_pattern s =
      (\<exists>v. list_all2 atom_match (replicate 40 HexLower) v \<and> sublist (''/media_'' @ v) s)"
    by (simp only: helix_pattern_def regex_test_Lit_append)
  also have "\<dots> = (\<exists>h. (length h = 40 \<and> set h \<subseteq> set ''abcdef0123456789'')
      \<and> sublist (''/media_'' @ h) s)"
    by (simp only: list_all2_replicate hex)
  finally show ?thesis by (simp only: conj_assoc)
qed

lemma list_all2_Dot:
  "list_all2 atom_match (Dot # pat) w =
     (\<exists>c v. w = c # v \<and> (c \<noteq> CHR 0x0A \<and> c \<noteq> CHR 0x0D) \<and> list_all2 atom_match pat v)"
  by (cases w) auto

lemma ex_one_then:
  "(\<exists>v. (\<exists>c v'. v = c # v' \<and> Q c \<and> v' = w) \<and> sublist (u @ v) s)
     = (\<exists>c. Q c \<and> sublist (u @ [c] @ w) s)"
  by auto

lemma regex_test_aem:
  "regex_test aem_pattern s =
     (\<exists>c. (c \<noteq> CHR 0x0A \<and> c \<noteq> CHR 0x0D) \<and> sublist (''/etc'' @ [c] @ ''clientlibs/'') s)"
proof -
  have eq: "aem_pattern = map Lit ''/etc'' @ Dot # map Lit ''clientlibs/''"
    by (simp add: aem_pattern_def)
  show ?thesis
    by (simp only: eq regex_test_Lit_append list_all2_Dot list_all2_Lit ex_one_then)
qed

lemma regex_test_rum:
  "regex_test rum_pattern s = sublist ''/.rum/@adobe/helix-rum-js'' s"
  by (simp only: rum_pattern_def regex_test_literal)

lemma sublist_nonempty: "sublist w s \<Longrightarrow> w \<noteq> [] \<Longrightarrow> s \<noteq> []"
  by (auto simp: sublist_def)

lemma enrichHTML_falsy_body:
  "Source r \<noteq> Some ''Excluded'' \<Longrightarrow> \<not> truthy (HTTPBody r)
   \<Longrightarrow> enrichHTML r = r\<lparr>Source := Some ''Unverified''\<rparr>"
  by (cases "HTTPBody r") (simp_all add: enrichHTML_def)

lemma enrichHTML_body:
  "Source r \<noteq> Some ''Excluded'' \<Longrightarrow> HTTPBody r = Some body \<Longrightarrow> body \<noteq> []
   \<Longrightarrow> enrichHTML r =
       (if regex_test helix_pattern body
        then r\<lparr>Source := Some ''Helix'', HTTPBody := None, HTTPHeaders := None\<rparr>
        else if regex_test aem_pattern body
        then r\<lparr>Source := Some ''AEM'', HTTPBody := None, HTTPHeaders := None\<rparr>
        else if regex_test rum_pattern body
        then r\<lparr>Source := Some ''RUM''\<rparr>
        else r\<lparr>Source := Some ''Other''\<rparr>)"
  by (simp add: enrichHTML_def)

text \<open>
  A response with status 200, content type text/html and an empty body leaves the HTTP
  enricher with HTTPBody present and empty.
\<close>

lemma enrichHTTPS_empty_body:
  "enrichHTTPS newURL_ok fetch_empty_page (domain_row ''www.example.com'')
   = Inr ((domain_row ''www.example.com'')
           \<lparr>HTTPStatus := Some 200,
            HTTPHeaders := Some (fromEntries [(''content-type'', ''text/html'')]),
            HTTPBody := Some ''''\<rparr>)"
  by (simp add: enrichHTTPS_def newURL_ok_def fetch_empty_page_def domain_row_def is_html_def
      fromEntries_def startsWith_def)

text \<open>
  C7 (as amended). For a record that is not excluded, the content classifier sets Source
  to "Unverified" when HTTPBody is absent or is the empty string. For a body that is
  not empty it tests the Helix, AEM and RUM fingerprints in this order, the first match
  deciding: Helix and AEM delete HTTPBody and HTTPHeaders, RUM keeps them, and Source
  is "Other" when none matches. A body that contains both a "/media_" path with 40
  lower-case hexadecimal digits and "/etc.clientlibs/" is classified as Helix.
\<close>

theorem enrichHTML_classification:
  assumes "Source r \<noteq> Some ''Excluded''"
  shows "(\<not> truthy (HTTPBody r) \<longrightarrow> enrichHTML r = r\<lparr>Source := Some ''Unverified''\<rparr>)
    \<and> (\<forall>body. HTTPBody r = Some body \<and> body \<noteq> [] \<longrightarrow>
          enrichHTML r =
            (if regex_test helix_pattern body
             then r\<lparr>Source := Some ''Helix'', HTTPBody := None, HTTPHeaders := None\<rparr>
             else if regex_test aem_pattern body
             then r\<lparr>Source := Some ''AEM'', HTTPBody := None, HTTPHeaders := None\<rparr>
             else if regex_test rum_pattern body
             then r\<lparr>Source := Some ''RUM''\<rparr>
             else r\<lparr>Source := Some ''Other''\<rparr>))
    \<and> (\<forall>body h. HTTPBody r = Some body \<and> length h = 40
            \<and> set h \<subseteq> set ''abcdef0123456789''
            \<and> sublist (''/media_'' @ h) body \<and> sublist ''/etc.clientlibs/'' body \<longrightarrow>
          enrichHTML r = r\<lparr>Source := Some ''Helix'', HTTPBody := None, HTTPHeaders := None\<rparr>)"
proof (intro conjI allI impI)
  assume "\<not> truthy (HTTPBody r)"
  with assms show "enrichHTML r = r\<lparr>Source := Some ''Unverified''\<rparr>"
    by (rule enrichHTML_falsy_body)
next
  fix body
  assume "HTTPBody r = Some body \<and> body \<noteq> []"
  with assms show "enrichHTML r =
            (if regex_test helix_pattern body
             then r\<lparr>Source := Some ''Helix'', HTTPBody := None, HTTPHeaders := None\<rparr>
             else if regex_test aem_pattern body
             then r\<lparr>Source := Some ''AEM'', HTTPBody := None, HTTPHeaders := None\<rparr>
             else if regex_test rum_pattern body
             then r\<lparr>Source := Some ''RUM''\<rparr>
             else r\<lparr>Source := Some ''Other''\<rparr>)"
    by (simp add: enrichHTML_body)
next
  fix body h
  assume a: "HTTPBody r = Some body \<and> length h = 40
            \<and> set h \<subseteq> set ''abcdef0123456789''
            \<and> sublist (''/media_'' @ h) body \<and> sublist ''/etc.clientlibs/'' body"
  then have ne: "body \<noteq> []" by (auto dest: sublist_nonempty)
  from a have "regex_test helix_pattern body"
    unfolding regex_test_helix by blast
  with assms a ne show "enrichHTML r = r\<lparr>Source := Some ''Helix'', HTTPBody := None, HTTPHeaders := None\<rparr>"
    by (simp add: enrichHTML_body)
qed

theorem enrichHTML_classification_witness:
  "enrichHTML ((domain_row ''www.example.com'')
      \<lparr>HTTPBody := Some ''<img src=/media_0123456789abcdef0123456789abcdef01234567.png><link href=/etc.clientlibs/site.css>''\<rparr>)
   = (domain_row ''www.example.com'')\<lparr>Source := Some ''Helix''\<rparr>"
proof -
  let ?b = "''<img src=/media_0123456789abcdef0123456789abcdef01234567.png><link href=/etc.clientlibs/site.css>''"
  let ?r = "(domain_row ''www.example.com'')\<lparr>HTTPBody := Some ?b\<rparr>"
  have ne: "Source ?r \<noteq> Some ''Excluded''" by (simp add: domain_row_def)
  have m: "sublist (''/media_'' @ ''0123456789abcdef0123456789abcdef01234567'') ?b"
    unfolding regex_test_literal [symmetric] by simp
  have e: "sublist ''/etc.clientlibs/'' ?b"
    unfolding regex_test_literal [symmetric] by simp
  have "HTTPBody ?r = Some ?b \<and> length ''0123456789abcdef0123456789abcdef01234567'' = 40
      \<and> set ''0123456789abcdef0123456789abcdef01234567'' \<subseteq> set ''abcdef0123456789''
      \<and> sublist (''/media_'' @ ''0123456789abcdef0123456789abcdef01234567'') ?b
      \<and> sublist ''/etc.clientlibs/'' ?b"
    using m e by simp
  with enrichHTML_classification [OF ne]
  have "enrichHTML ?r = ?r\<lparr>Source := Some ''Helix'', HTTPBody := None, HTTPHeaders := None\<rparr>"
    by blast
  then show ?thesis by (simp add: domain_row_def)
qed

text \<open>
  C7 as stated fails: the record of "www.example.com", served an empty page, leaves the
  HTTP enricher with an HTTPBody that is present and empty; it matches no fingerprint,
  and it is classified as "Unverified" and not as "Other".
\<close>

theorem enrichHTML_empty_body_counterexample:
  "enrichHTTPS newURL_ok fetch_empty_page (domain_row ''www.example.com'')
   = Inr ((domain_row ''www.example.com'')
           \<lparr>HTTPStatus := Some 200,
            HTTPHeaders := Some (fromEntries [(''content-type'', ''text/html'')]),
            HTTPBody := Some ''''\<rparr>)
 \<and> Source ((domain_row ''www.example.com'')
           \<lparr>HTTPStatus := Some 200,
            HTTPHeaders := Some (fromEntries [(''content-type'', ''text/html'')]),
            HTTPBody := Some ''''\<rparr>) \<noteq> Some ''Excluded''
 \<and> HTTPBody ((domain_row ''www.example.com'')
           \<lparr>HTTPStatus := Some 200,
            HTTPHeaders := Some (fromEntries [(''content-type'', ''text/html'')]),
            HTTPBody := Some ''''\<rparr>) \<noteq> None
 \<and> \<not> regex_test helix_pattern '''' \<and> \<not> regex_test aem_pattern ''''
 \<and> \<not> regex_test rum_pattern ''''
 \<and> Source (enrichHTML ((domain_row ''www.example.com'')
           \<lparr>HTTPStatus := Some 200,
            HTTPHeaders := Some (fromEntries [(''content-type'', ''text/html'')]),
            HTTPBody := Some ''''\<rparr>)) \<noteq> Some ''Other''"
  using enrichHTTPS_empty_body
  by (simp add: domain_row_def enrichHTML_def helix_pattern_def aem_pattern_def rum_pattern_def)

text \<open>
  C10. Some body that does not contain "/etc.clientlibs/" is classified as AEM: the
  body "/etcXclientlibs/" is one, the dot of the fingerprint matching the "X".
\<close>

theorem enrichHTML_AEM_without_literal_dot:
  "\<exists>body. \<not> sublist ''/etc.clientlibs/'' body
     \<and> Source (enrichHTML ((domain_row d)\<lparr>HTTPBody := Some body\<rparr>)) = Some ''AEM''"
proof -
  have 1: "\<not> sublist ''/etc.clientlibs/'' ''/etcXclientlibs/''"
    unfolding regex_test_literal [symmetric] by simp
  have 2: "\<not> regex_test helix_pattern ''/etcXclientlibs/''"
    by (simp add: helix_pattern_def)
  have 3: "regex_test aem_pattern ''/etcXclientlibs/''"
    by (simp add: aem_pattern_def)
  have "Source (enrichHTML ((domain_row d)\<lparr>HTTPBody := Some ''/etcXclientlibs/''\<rparr>)) = Some ''AEM''"
    using 2 3 by (simp add: enrichHTML_def domain_row_def)
  with 1 show ?thesis by blast
qed

section \<open>The HTTP enricher\<close>

text \<open>
  The URL constructor is called before the \<^verbatim>\<open>try\<close> block: when it throws, the
  exception leaves the stage.
\<close>

lemma enrichHTTPS_invalid_URL:
  "Source r \<noteq> Some ''Excluded'' \<Longrightarrow> newURL (''https://'' @ Domain' r) = Inl e
   \<Longrightarrow> enrichHTTPS newURL fetch r = Inl e"
  by (simp add: enrichHTTPS_def)

text \<open>
  C4 (as amended). Take a record that is not excluded, on which no HTTP field is set,
  and whose URL the constructor accepts. The HTTP enricher returns the record whatever
  the network does; a failure is stored as HTTPError and is not thrown. When the
  request itself fails, the result is the record with HTTPError set and nothing else
  changed, so HTTPStatus, HTTPHeaders and HTTPBody are absent. When the response has
  status 200 and content type text/html and reading its body fails, the result is the
  record with HTTPStatus 200, the headers of the response and HTTPError set, and
  HTTPBody absent. These are the only two ways in which HTTPError gets set: a response
  whose body is not read, or is read, leaves HTTPError absent.
\<close>

theorem enrichHTTPS_failure_is_data:
  assumes "Source r \<noteq> Some ''Excluded''"
    and "HTTPStatus r = None" and "HTTPHeaders r = None" and "HTTPBody r = None"
    and "HTTPError r = None"
    and "newURL (''https://'' @ Domain' r) = Inr url"
  shows "\<exists>r'. enrichHTTPS newURL fetch r = Inr r'
      \<and> (\<forall>e. fetch url = Inl e \<longrightarrow> r' = r\<lparr>HTTPError := Some e\<rparr>)
      \<and> (\<forall>res e. fetch url = Inr res \<and> res_status res = 200
              \<and> is_html (fromEntries (res_headers res)) \<and> res_text res = Inl e \<longrightarrow>
            r' = r\<lparr>HTTPStatus := Some 200,
                   HTTPHeaders := Some (fromEntries (res_headers res)),
                   HTTPError := Some e\<rparr>)
      \<and> (\<forall>res body. fetch url = Inr res \<and> res_status res = 200
              \<and> is_html (fromEntries (res_headers res)) \<and> res_text res = Inr body \<longrightarrow>
            r' = r\<lparr>HTTPStatus := Some 200,
                   HTTPHeaders := Some (fromEntries (res_headers res)),
                   HTTPBody := Some body\<rparr>)
      \<and> (\<forall>res. fetch url = Inr res
              \<and> \<not> (res_status res = 200 \<and> is_html (fromEntries (res_headers res))) \<longrightarrow>
            r' = r\<lparr>HTTPStatus := Some (res_status res),
                   HTTPHeaders := Some (fromEntries (res_headers res))\<rparr>)
      \<and> (\<forall>e. HTTPError r' = Some e \<longrightarrow>
            HTTPBody r' = None
          \<and> (fetch url = Inl e \<and> HTTPStatus r' = None \<and> HTTPHeaders r' = None
             \<or> (\<exists>res. fetch url = Inr res \<and> res_status res = 200
                   \<and> is_html (fromEntries (res_headers res)) \<and> res_text res = Inl e
                   \<and> HTTPStatus r' = Some 200
                   \<and> HTTPHeaders r' = Some (fromEntries (res_headers res)))))"
proof (cases "fetch url")
  case (Inl e)
  with assms show ?thesis by (simp add: enrichHTTPS_def)
next
  case (Inr res)
  show ?thesis
  proof (cases "res_status res = 200 \<and> is_html (fromEntries (res_headers res))")
    case False
    with Inr assms show ?thesis by (auto simp: enrichHTTPS_def Let_def)
  next
    case True
    with Inr assms show ?thesis
      by (cases "res_text res") (auto simp: enrichHTTPS_def Let_def)
  qed
qed

theorem enrichHTTPS_failure_is_data_witness:
  "\<exists>r'. enrichHTTPS newURL_ok fetch_body_fails (domain_row ''www.example.com'') = Inr r'
      \<and> HTTPError r' = Some (JsError ''terminated'')
      \<and> HTTPBody r' = None \<and> HTTPStatus r' = Some 200
      \<and> HTTPHeaders r' = Some (fromEntries [(''content-type'', ''text/html'')])"
proof -
  let ?r = "domain_row ''www.example.com''"
  let ?res = "\<lparr>res_status = 200, res_headers = [(''content-type'', ''text/html'')],
               res_text = Inl (JsError ''terminated'')\<rparr>"
  have a: "Source ?r \<noteq> Some ''Excluded''" "HTTPStatus ?r = None" "HTTPHeaders ?r = None"
    "HTTPBody ?r = None" "HTTPError ?r = None"
    "newURL_ok (''https://'' @ Domain' ?r) = Inr (''https://'' @ Domain' ?r)"
    by (simp_all add: domain_row_def newURL_ok_def)
  have f: "fetch_body_fails (''https://'' @ Domain' ?r) = Inr ?res \<and> res_status ?res = 200
      \<and> is_html (fromEntries (res_headers ?res)) \<and> res_text ?res = Inl (JsError ''terminated'')"
    by (simp add: fetch_body_fails_def is_html_def fromEntries_def startsWith_def)
  from enrichHTTPS_failure_is_data
    [where r = ?r and newURL = newURL_ok and url = "''https://'' @ Domain' ?r"
       and fetch = fetch_body_fails, OF a]
  obtain r' where r: "enrichHTTPS newURL_ok fetch_body_fails ?r = Inr r'"
    and c: "\<forall>res e. fetch_body_fails (''https://'' @ Domain' ?r) = Inr res \<and> res_status res = 200
              \<and> is_html (fromEntries (res_headers res)) \<and> res_text res = Inl e \<longrightarrow>
            r' = ?r\<lparr>HTTPStatus := Some 200,
                   HTTPHeaders := Some (fromEntries (res_headers res)),
                   HTTPError := Some e\<rparr>"
    by blast
  from c f have "r' = ?r\<lparr>HTTPStatus := Some 200,
                   HTTPHeaders := Some (fromEntries (res_headers ?res)),
                   HTTPError := Some (JsError ''terminated'')\<rparr>"
    by blast
  then have "HTTPError r' = Some (JsError ''terminated'') \<and> HTTPBody r' = None
      \<and> HTTPStatus r' = Some 200
      \<and> HTTPHeaders r' = Some (fromEntries [(''content-type'', ''text/html'')])"
    by (simp add: domain_row_def)
  with r show ?thesis by blast
qed

theorem enrichHTTPS_status_with_error_counterexample:
  "Source (domain_row ''www.example.com'') \<noteq> Some ''Excluded''
 \<and> enrichHTTPS newURL_ok fetch_body_fails (domain_row ''www.example.com'')
     = Inr ((domain_row ''www.example.com'')
             \<lparr>HTTPStatus := Some 200,
              HTTPHeaders := Some (fromEntries [(''content-type'', ''text/html'')]),
              HTTPError := Some (JsError ''terminated'')\<rparr>)
 \<and> HTTPError ((domain_row ''www.example.com'')
             \<lparr>HTTPStatus := Some 200,
              HTTPHeaders := Some (fromEntries [(''content-type'', ''text/html'')]),
              HTTPError := Some (JsError ''terminated'')\<rparr>) \<noteq> None
 \<and> HTTPStatus ((domain_row ''www.example.com'')
             \<lparr>HTTPStatus := Some 200,
              HTTPHeaders := Some (fromEntries [(''content-type'', ''text/html'')]),
              HTTPError := Some (JsError ''terminated'')\<rparr>) \<noteq> None
 \<and> HTTPHeaders ((domain_row ''www.example.com'')
             \<lparr>HTTPStatus := Some 200,
              HTTPHeaders := Some (fromEntries [(''content-type'', ''text/html'')]),
              HTTPError := Some (JsError ''terminated'')\<rparr>) \<noteq> None"
  by (simp add: enrichHTTPS_def newURL_ok_def fetch_body_fails_def domain_row_def Let_def
      is_html_def fromEntries_def startsWith_def)

section \<open>The IP check\<close>

lemma not_ip_www_example_com:
  "\<not> full_match ipv4Regex ''www.example.com''" "\<not> full_match ipv6Regex ''www.example.com''"
  by code_simp+

section \<open>The sorter\<close>

lemma set_insert_sorted: "set (insert_sorted cmp x ys) = insert x (set ys)"
  by (induction ys) auto

lemma mset_insert_sorted: "mset (insert_sorted cmp x ys) = add_mset x (mset ys)"
  by (induction ys) auto

lemma mset_array_sort: "mset (array_sort cmp xs) = mset xs"
  by (induction xs) (simp_all add: array_sort_def mset_insert_sorted)

lemma set_array_sort: "set (array_sort cmp xs) = set xs"
  by (metis mset_array_sort set_mset_mset)

lemma sorted_insert_sorted:
  assumes total: "\<And>a b. cmp a b \<le> 0 \<or> cmp b a \<le> 0"
    and trans: "\<And>a b c. cmp a b \<le> 0 \<Longrightarrow> cmp b c \<le> 0 \<Longrightarrow> cmp a c \<le> 0"
    and "sorted_wrt (\<lambda>a b. cmp a b \<le> 0) ys"
  shows "sorted_wrt (\<lambda>a b. cmp a b \<le> 0) (insert_sorted cmp x ys)"
  using assms(3)
proof (induction ys)
  case Nil
  show ?case by simp
next
  case (Cons y ys)
  show ?case
  proof (cases "cmp x y \<le> 0")
    case True
    have "cmp x z \<le> 0" if "z \<in> set ys" for z
      using Cons.prems that True trans by auto
    with True Cons.prems show ?thesis by auto
  next
    case False
    with total have "cmp y x \<le> 0" by blast
    with False Cons show ?thesis by (auto simp: set_insert_sorted)
  qed
qed

lemma sorted_array_sort:
  assumes total: "\<And>a b. cmp a b \<le> 0 \<or> cmp b a \<le> 0"
    and trans: "\<And>a b c. cmp a b \<le> 0 \<Longrightarrow> cmp b c \<le> 0 \<Longrightarrow> cmp a c \<le> 0"
  shows "sorted_wrt (\<lambda>a b. cmp a b \<le> 0) (array_sort cmp xs)"
proof (induction xs)
  case Nil
  show ?case by (simp add: array_sort_def)
next
  case (Cons x xs)
  have "array_sort cmp (x # xs) = insert_sorted cmp x (array_sort cmp xs)"
    by (simp add: array_sort_def)
  with Cons sorted_insert_sorted [of cmp, OF total trans] show ?case by simp
qed

lemma sort_comparator_truthy:
  "truthy (Parent l) \<Longrightarrow> truthy (Parent r) \<Longrightarrow>
   sort_comparator lc l r = lc (the (Parent l)) (the (Parent r))"
  by (cases "Parent l"; cases "Parent r") (simp_all add: sort_comparator_def)

lemma sort_comparator_total:
  assumes "\<forall>a b. lc a b \<le> 0 \<or> lc b a \<le> 0"
  shows "sort_comparator lc l r \<le> 0 \<or> sort_comparator lc r l \<le> 0"
proof (cases "truthy (Parent l) \<and> truthy (Parent r)")
  case True
  with assms show ?thesis by (simp add: sort_comparator_truthy)
next
  case False
  then show ?thesis by (auto simp: sort_comparator_def)
qed

lemma sort_comparator_le:
  "(sort_comparator lc l r \<le> 0) =
     (if truthy (Parent l) \<and> truthy (Parent r) then lc (the (Parent l)) (the (Parent r)) \<le> 0
      else truthy (Parent l) \<or> \<not> truthy (Parent r))"
  by (cases "Parent l"; cases "Parent r") (auto simp: sort_comparator_def)

lemma sort_comparator_trans:
  assumes "\<forall>a b c. lc a b \<le> 0 \<and> lc b c \<le> 0 \<longrightarrow> lc a c \<le> 0"
    and "sort_comparator lc x y \<le> 0" and "sort_comparator lc y z \<le> 0"
  shows "sort_comparator lc x z \<le> 0"
proof (cases "truthy (Parent x) \<and> truthy (Parent y) \<and> truthy (Parent z)")
  case True
  with assms(2,3) have "lc (the (Parent x)) (the (Parent y)) \<le> 0"
    and "lc (the (Parent y)) (the (Parent z)) \<le> 0"
    by (simp_all add: sort_comparator_le)
  with assms(1) have "lc (the (Parent x)) (the (Parent z)) \<le> 0" by blast
  with True show ?thesis by (simp add: sort_comparator_le)
next
  case False
  have "truthy (Parent x) \<or> \<not> truthy (Parent y)"
    using assms(2) False by (simp add: sort_comparator_le split: if_splits)
  moreover have "truthy (Parent y) \<or> \<not> truthy (Parent z)"
    using assms(3) False by (simp add: sort_comparator_le split: if_splits)
  ultimately have "\<not> truthy (Parent z)" using False by blast
  then show ?thesis by (simp add: sort_comparator_le)
qed

text \<open>
  C9 (as amended). Let the collation be a total preorder on strings (any two strings
  are comparable, and the comparison is transitive). Then the sorter returns a
  rearrangement of the records in which, for any two positions \<open>i < j\<close>: if both
  records have a Parent that is not the empty string, the Parent at \<open>i\<close> is not
  greater than the Parent at \<open>j\<close> in the collation; and if the record at \<open>j\<close> has
  such a Parent, so has the record at \<open>i\<close>, that is, every record whose Parent is
  absent or empty comes after every record whose Parent is present and not empty.
\<close>

theorem sorter_total_order:
  assumes "\<forall>a b. localeCompare a b \<le> 0 \<or> localeCompare b a \<le> 0"
    and "\<forall>a b c. localeCompare a b \<le> 0 \<and> localeCompare b c \<le> 0 \<longrightarrow> localeCompare a c \<le> 0"
    and "out = array_sort (sort_comparator localeCompare) rows"
    and "i < j" and "j < length out"
  shows "mset out = mset rows
       \<and> (\<forall>a b. Parent (out ! i) = Some a \<and> a \<noteq> [] \<and> Parent (out ! j) = Some b \<and> b \<noteq> []
             \<longrightarrow> localeCompare a b \<le> 0)
       \<and> (truthy (Parent (out ! j)) \<longrightarrow> truthy (Parent (out ! i)))"
proof -
  let ?cmp = "sort_comparator localeCompare"
  have "sorted_wrt (\<lambda>a b. ?cmp a b \<le> 0) out"
    unfolding assms(3)
    using sort_comparator_total [OF assms(1)] sort_comparator_trans [OF assms(2)]
    by (rule sorted_array_sort)
  with assms(4,5) have le: "?cmp (out ! i) (out ! j) \<le> 0"
    by (simp add: sorted_wrt_iff_nth_less)
  have 1: "mset out = mset rows" by (simp add: assms(3) mset_array_sort)
  have 2: "localeCompare a b \<le> 0"
    if "Parent (out ! i) = Some a \<and> a \<noteq> [] \<and> Parent (out ! j) = Some b \<and> b \<noteq> []" for a b
    using le that by (simp add: sort_comparator_le)
  have 3: "truthy (Parent (out ! j)) \<longrightarrow> truthy (Parent (out ! i))"
    using le by (auto simp: sort_comparator_le split: if_splits)
  from 1 2 3 show ?thesis by blast
qed

theorem sorter_total_order_witness:
  "map Parent (array_sort (sort_comparator codeunit_compare)
     [(domain_row ''www.b.com'')\<lparr>Parent := Some ''b.com''\<rparr>,
      domain_row ''localhost'',
      (domain_row ''www.a.com'')\<lparr>Parent := Some ''a.com''\<rparr>])
   = [Some ''a.com'', Some ''b.com'', None]
 \<and> codeunit_compare ''a.com'' ''b.com'' \<le> 0"
proof -
  let ?rows = "[(domain_row ''www.b.com'')\<lparr>Parent := Some ''b.com''\<rparr>,
      domain_row ''localhost'',
      (domain_row ''www.a.com'')\<lparr>Parent := Some ''a.com''\<rparr>]"
  let ?out = "array_sort (sort_comparator codeunit_compare) ?rows"
  have t: "\<forall>a b. codeunit_compare a b \<le> 0 \<or> codeunit_compare b a \<le> 0"
    by (auto simp: codeunit_compare_def)
  have tr: "\<forall>a b c. codeunit_compare a b \<le> 0 \<and> codeunit_compare b c \<le> 0
      \<longrightarrow> codeunit_compare a c \<le> 0"
    by (auto simp: codeunit_compare_def split: if_splits)
  have out: "?out = [(domain_row ''www.a.com'')\<lparr>Parent := Some ''a.com''\<rparr>,
      (domain_row ''www.b.com'')\<lparr>Parent := Some ''b.com''\<rparr>, domain_row ''localhost'']"
    by (simp add: array_sort_def sort_comparator_def codeunit_compare_def domain_row_def)
  have "(0::nat) < 1" and "1 < length ?out" by (simp_all add: out)
  from sorter_total_order [OF t tr refl this]
  have "\<forall>a b. Parent (?out ! 0) = Some a \<and> a \<noteq> [] \<and> Parent (?out ! 1) = Some b \<and> b \<noteq> []
             \<longrightarrow> codeunit_compare a b \<le> 0"
    by blast
  then have "codeunit_compare ''a.com'' ''b.com'' \<le> 0"
    unfolding out by (simp add: domain_row_def)
  with out show ?thesis by (simp add: domain_row_def)
qed

text \<open>
  C9 as stated fails: the comparator's test \<^verbatim>\<open>!l.Parent\<close> also holds for a Parent
  that is the empty string. The input row with Domain "foo:8080" and an empty Parent
  is excluded by the port check and keeps its Parent; the row "www.example.com" gets
  the Parent "example.com". Both records have a Parent, and the sorter puts
  "example.com" first, although "example.com" is greater than "" in the collation.
\<close>

theorem sorter_empty_Parent_counterexample:
  "sync_stages psl_example codeunit_compare
     [(domain_row ''foo:8080'')\<lparr>Parent := Some ''''\<rparr>, domain_row ''www.example.com'']
   = [(domain_row ''www.example.com'')\<lparr>Parent := Some ''example.com'', TLD := Some ''com''\<rparr>,
      (domain_row ''foo:8080'')
        \<lparr>Parent := Some '''', Source := Some ''Excluded'', Comment := Some port_comment\<rparr>]
 \<and> Parent ((domain_row ''www.example.com'')
             \<lparr>Parent := Some ''example.com'', TLD := Some ''com''\<rparr>) \<noteq> None
 \<and> Parent ((domain_row ''foo:8080'')
             \<lparr>Parent := Some '''', Source := Some ''Excluded'', Comment := Some port_comment\<rparr>)
     \<noteq> None
 \<and> \<not> codeunit_compare ''example.com'' '''' \<le> 0"
  by (simp add: sync_stages_def array_sort_def sort_comparator_def codeunit_compare_def
      cleanupTrailingDot_def endsWith_def flagPorts_def split_0_def flagIP_def
      not_ip_www_example_com flagParent_def psl_example_def flagDev_def devParents_def
      domain_row_def)

section \<open>Excluded records\<close>

lemma flagIP_excluded: "Source r = Some ''Excluded'' \<Longrightarrow> flagIP r = r"
  by (simp add: flagIP_def)

lemma flagParent_excluded: "Source r = Some ''Excluded'' \<Longrightarrow> flagParent psl_parse r = r"
  by (simp add: flagParent_def)

lemma flagCDN_excluded: "Source r = Some ''Excluded'' \<Longrightarrow> flagCDN r = r"
  by (simp add: flagCDN_def)

lemma enrichHTML_excluded: "Source r = Some ''Excluded'' \<Longrightarrow> enrichHTML r = r"
  by (simp add: enrichHTML_def)

lemma enrich_chain_excluded:
  "Source r = Some ''Excluded'' \<Longrightarrow> enrich_chain resolveAny newURL fetch r = Inr r"
  by (simp add: enrich_chain_def enrichDNS_excluded enrichHTTPS_excluded flagCDN_excluded
      enrichHTML_excluded)

text \<open>
  The dev-domain check has no test of Source. On an excluded record it changes nothing
  when Parent and TLD are absent or not in the list, and otherwise it replaces the
  comment of the stage that excluded the record.
\<close>

lemma flagDev_excluded:
  "Source r = Some ''Excluded'' \<Longrightarrow>
   flagDev r =
     (if array_includes devParents (Parent r) \<or> array_includes devParents (TLD r)
      then r\<lparr>Comment := Some ''Development domain excluded''\<rparr> else r)"
  by (simp add: flagDev_def)

lemma flagDev_excluded_unparsed:
  "Source r = Some ''Excluded'' \<Longrightarrow> Parent r = None \<Longrightarrow> TLD r = None \<Longrightarrow> flagDev r = r"
  by (simp add: flagDev_def)

text \<open>
  C8. The input row with Domain "foo.github.com:8080" and Parent "github.com" is
  excluded by the port check with the port comment; the IP check and the suffix
  resolver return it unchanged, and the dev-domain check, which does not test Source,
  replaces the comment.
\<close>

theorem flagDev_changes_excluded_record:
  "Source (flagPorts (cleanupTrailingDot
      ((domain_row ''foo.github.com:8080'')\<lparr>Parent := Some ''github.com''\<rparr>)))
     = Some ''Excluded''
 \<and> Comment (flagPorts (cleanupTrailingDot
      ((domain_row ''foo.github.com:8080'')\<lparr>Parent := Some ''github.com''\<rparr>)))
     = Some port_comment
 \<and> flagParent psl_parse (flagIP (flagPorts (cleanupTrailingDot
      ((domain_row ''foo.github.com:8080'')\<lparr>Parent := Some ''github.com''\<rparr>))))
     = flagPorts (cleanupTrailingDot
      ((domain_row ''foo.github.com:8080'')\<lparr>Parent := Some ''github.com''\<rparr>))
 \<and> Comment (flagDev (flagParent psl_parse (flagIP (flagPorts (cleanupTrailingDot
      ((domain_row ''foo.github.com:8080'')\<lparr>Parent := Some ''github.com''\<rparr>))))))
     = Some ''Development domain excluded''"
  by (simp add: domain_row_def cleanupTrailingDot_def endsWith_def flagPorts_def flagIP_def
      flagParent_def flagDev_def devParents_def)

section \<open>The final output\<close>

lemma sync_keeps:
  "DNS (cleanupTrailingDot r) = DNS r" "HTTPBody (cleanupTrailingDot r) = HTTPBody r"
  "DNS (flagPorts r) = DNS r" "HTTPBody (flagPorts r) = HTTPBody r"
  "DNS (flagIP r) = DNS r" "HTTPBody (flagIP r) = HTTPBody r"
  "DNS (flagParent psl_parse r) = DNS r" "HTTPBody (flagParent psl_parse r) = HTTPBody r"
  "DNS (flagDev r) = DNS r" "HTTPBody (flagDev r) = HTTPBody r"
  by (simp_all add: cleanupTrailingDot_def flagPorts_def Let_def flagIP_def flagParent_def
      flagDev_def)

lemma sync_stages_keeps:
  assumes "r \<in> set (sync_stages psl_parse localeCompare csvData)"
  shows "\<exists>r0\<in>set csvData. DNS r = DNS r0 \<and> HTTPBody r = HTTPBody r0"
proof -
  from assms obtain r0 where "r0 \<in> set csvData"
    and "r = flagDev (flagParent psl_parse (flagIP (flagPorts (cleanupTrailingDot r0))))"
    by (auto simp: sync_stages_def set_array_sort)
  then show ?thesis by (auto simp: sync_keeps)
qed

lemma promise_all_Inr:
  "promise_all ps = Inr out \<Longrightarrow> x \<in> set out \<Longrightarrow> Inr x \<in> set ps"
proof (induction ps arbitrary: out)
  case Nil
  then show ?case by simp
next
  case (Cons p ps)
  then show ?case
    by (cases p; cases "promise_all ps") auto
qed

lemma flagCDN_keeps:
  "Source (flagCDN r) = Source r" "HTTPBody (flagCDN r) = HTTPBody r"
  "HTTPHeaders (flagCDN r) = HTTPHeaders r"
  by (simp_all add: flagCDN_def Let_def split: option.splits)

lemma flagCDN_deletes_DNS: "Source r \<noteq> Some ''Excluded'' \<Longrightarrow> DNS (flagCDN r) = None"
  by (simp add: flagCDN_def Let_def split: option.splits)

lemma enrichHTML_DNS: "DNS (enrichHTML r) = DNS r"
  by (simp add: enrichHTML_def split: option.splits)

lemma enrichHTML_outcome:
  assumes "Source r \<noteq> Some ''Excluded''"
  shows "(Source (enrichHTML r) = Some ''Unverified'' \<and> \<not> truthy (HTTPBody (enrichHTML r)))
       \<or> (Source (enrichHTML r) = Some ''Helix'' \<and> HTTPBody (enrichHTML r) = None)
       \<or> (Source (enrichHTML r) = Some ''AEM'' \<and> HTTPBody (enrichHTML r) = None)
       \<or> (Source (enrichHTML r) = Some ''RUM'' \<and> truthy (HTTPBody (enrichHTML r)))
       \<or> (Source (enrichHTML r) = Some ''Other'' \<and> truthy (HTTPBody (enrichHTML r)))"
proof (cases "truthy (HTTPBody r)")
  case False
  with assms show ?thesis by (simp add: enrichHTML_falsy_body)
next
  case True
  then obtain body where "HTTPBody r = Some body" "body \<noteq> []"
    by (cases "HTTPBody r") auto
  with assms show ?thesis by (simp add: enrichHTML_body)
qed

lemma enrich_chain_final:
  assumes "DNS r = None" and "HTTPBody r = None"
    and "enrich_chain resolveAny newURL fetch r = Inr r'"
  shows "DNS r' = None
       \<and> ((Source r' = Some ''Excluded'' \<and> HTTPBody r' = None)
         \<or> (Source r' = Some ''Unverified'' \<and> \<not> truthy (HTTPBody r'))
         \<or> (Source r' = Some ''Helix'' \<and> HTTPBody r' = None)
         \<or> (Source r' = Some ''AEM'' \<and> HTTPBody r' = None)
         \<or> (Source r' = Some ''RUM'' \<and> truthy (HTTPBody r'))
         \<or> (Source r' = Some ''Other'' \<and> truthy (HTTPBody r')))"
proof (cases "Source r = Some ''Excluded''")
  case True
  with assms(3) have "r' = r" by (simp add: enrich_chain_excluded)
  with True assms(1,2) show ?thesis by simp
next
  case False
  from assms(3) obtain r2 where r2: "enrichHTTPS newURL fetch (enrichDNS resolveAny r) = Inr r2"
    and r': "r' = enrichHTML (flagCDN r2)"
    by (auto simp: enrich_chain_def split: sum.splits)
  have "Source r2 = Source r"
    using enrichHTTPS_keeps(1) [OF r2] by (simp add: enrichDNS_Source)
  with False have ne: "Source (flagCDN r2) \<noteq> Some ''Excluded''" by (simp add: flagCDN_keeps)
  have "DNS r' = None"
    using ne by (simp add: r' enrichHTML_DNS flagCDN_deletes_DNS flagCDN_keeps)
  with enrichHTML_outcome [OF ne] show ?thesis unfolding r' by blast
qed

text \<open>The chain on one input row, for a server that returns a page without fingerprint.\<close>

lemma cleaned_plain_page:
  "cleaned psl_example codeunit_compare resolveAny_address newURL_ok fetch_plain_page
     [domain_row ''www.example.com'']
   = Inr [(domain_row ''www.example.com'')
           \<lparr>Parent := Some ''example.com'', TLD := Some ''com'', Source := Some ''Other'',
            HTTPStatus := Some 200,
            HTTPHeaders := Some (fromEntries [(''content-type'', ''text/html'')]),
            HTTPBody := Some ''<html><body>Hello</body></html>''\<rparr>]"
  by (simp add: cleaned_def sync_stages_def array_sort_def cleanupTrailingDot_def
      endsWith_def flagPorts_def flagIP_def not_ip_www_example_com flagParent_def
      psl_example_def flagDev_def devParents_def enrich_chain_def enrichDNS_def
      resolveAny_address_def enrichHTTPS_def newURL_ok_def fetch_plain_page_def
      is_html_def fromEntries_def startsWith_def flagCDN_def is_CNAME_def
      server_is_cloudflare_def enrichHTML_def helix_pattern_def aem_pattern_def
      rum_pattern_def domain_row_def Let_def)

text \<open>
  C2 (as amended). Take input rows on which DNS and HTTPBody are not set. On every
  record of the final output DNS is absent. HTTPBody is absent when the final Source is
  "Excluded", "Helix" or "AEM"; it is absent or empty when Source is "Unverified"; and
  it is kept, with its content, when Source is "RUM" or "Other". Source has one of
  these six values.
\<close>

theorem cleaned_transient_fields:
  assumes "\<forall>r\<in>set csvData. DNS r = None \<and> HTTPBody r = None"
    and "cleaned psl_parse localeCompare resolveAny newURL fetch csvData = Inr out"
    and "r' \<in> set out"
  shows "DNS r' = None
       \<and> ((Source r' = Some ''Excluded'' \<and> HTTPBody r' = None)
         \<or> (Source r' = Some ''Unverified'' \<and> \<not> truthy (HTTPBody r'))
         \<or> (Source r' = Some ''Helix'' \<and> HTTPBody r' = None)
         \<or> (Source r' = Some ''AEM'' \<and> HTTPBody r' = None)
         \<or> (Source r' = Some ''RUM'' \<and> truthy (HTTPBody r'))
         \<or> (Source r' = Some ''Other'' \<and> truthy (HTTPBody r')))"
proof -
  from assms(2,3)
  have "Inr r' \<in> set (map (enrich_chain resolveAny newURL fetch)
                          (sync_stages psl_parse localeCompare csvData))"
    unfolding cleaned_def by (rule promise_all_Inr)
  then obtain r where r: "r \<in> set (sync_stages psl_parse localeCompare csvData)"
    and c: "enrich_chain resolveAny newURL fetch r = Inr r'"
    by auto
  from sync_stages_keeps [OF r] assms(1) have "DNS r = None" "HTTPBody r = None"
    by auto
  then show ?thesis using c by (rule enrich_chain_final)
qed

theorem cleaned_transient_fields_witness:
  "DNS ((domain_row ''www.example.com'')
           \<lparr>Parent := Some ''example.com'', TLD := Some ''com'', Source := Some ''Other'',
            HTTPStatus := Some 200,
            HTTPHeaders := Some (fromEntries [(''content-type'', ''text/html'')]),
            HTTPBody := Some ''<html><body>Hello</body></html>''\<rparr>) = None
 \<and> truthy (HTTPBody ((domain_row ''www.example.com'')
           \<lparr>Parent := Some ''example.com'', TLD := Some ''com'', Source := Some ''Other'',
            HTTPStatus := Some 200,
            HTTPHeaders := Some (fromEntries [(''content-type'', ''text/html'')]),
            HTTPBody := Some ''<html><body>Hello</body></html>''\<rparr>))"
proof -
  have "\<forall>r\<in>set [domain_row ''www.example.com'']. DNS r = None \<and> HTTPBody r = None"
    by (simp add: domain_row_def)
  from cleaned_transient_fields [OF this cleaned_plain_page]
  show ?thesis by simp
qed

text \<open>
  C2 as stated fails: the record of "www.example.com", served a page without
  fingerprint, reaches the final output as "Other" with its HTTPBody.
\<close>

theorem cleaned_keeps_body_counterexample:
  "cleaned psl_example codeunit_compare resolveAny_address newURL_ok fetch_plain_page
     [domain_row ''www.example.com'']
   = Inr [(domain_row ''www.example.com'')
           \<lparr>Parent := Some ''example.com'', TLD := Some ''com'', Source := Some ''Other'',
            HTTPStatus := Some 200,
            HTTPHeaders := Some (fromEntries [(''content-type'', ''text/html'')]),
            HTTPBody := Some ''<html><body>Hello</body></html>''\<rparr>]
 \<and> HTTPBody ((domain_row ''www.example.com'')
           \<lparr>Parent := Some ''example.com'', TLD := Some ''com'', Source := Some ''Other'',
            HTTPStatus := Some 200,
            HTTPHeaders := Some (fromEntries [(''content-type'', ''text/html'')]),
            HTTPBody := Some ''<html><body>Hello</body></html>''\<rparr>) \<noteq> None"
  using cleaned_plain_page by simp

end
